theory Spec2Isabelle
  imports Main
begin

section \<open>JavaScript values\<close>

text \<open>
  The values the adapters handle come out of \<^verbatim>\<open>JSON.parse\<close> or out of the host's state
  store: \<^verbatim>\<open>undefined\<close>, \<^verbatim>\<open>null\<close>, booleans, numbers, strings, arrays and plain objects.
  Numbers are integers here: the code only tests a number for truthiness and compares one
  with \<^verbatim>\<open>200\<close>. An object is the list of its own properties; a lookup takes the first entry
  of a key.
\<close>

datatype jsval =
    JUndefined
  | JNull
  | JBool bool
  | JNum int
  | JStr string
  | JArr "jsval list"
  | JObj "(string \<times> jsval) list"

text \<open>A thrown exception, by its message.\<close>

type_synonym exn = string

fun truthy :: "jsval \<Rightarrow> bool" where
  "truthy JUndefined = False"
| "truthy JNull = False"
| "truthy (JBool b) = b"
| "truthy (JNum n) = (n \<noteq> 0)"
| "truthy (JStr s) = (s \<noteq> [])"
| "truthy (JArr xs) = True"
| "truthy (JObj kvs) = True"

fun nullish :: "jsval \<Rightarrow> bool" where
  "nullish JUndefined = True"
| "nullish JNull = True"
| "nullish v = False"

fun is_array :: "jsval \<Rightarrow> bool" where
  "is_array (JArr xs) = True"
| "is_array v = False"

text \<open>
  \<^verbatim>\<open>v.k\<close> for a value that is neither \<^verbatim>\<open>undefined\<close> nor \<^verbatim>\<open>null\<close>: an own property of an
  object, \<^verbatim>\<open>undefined\<close> otherwise. None of the property names the adapters read
  (\<^verbatim>\<open>msg_data\<close>, \<^verbatim>\<open>kind\<close>, \<^verbatim>\<open>entity_id\<close>, \<^verbatim>\<open>state\<close>, ...) is defined on the prototype of a
  string, number, boolean, array or object.
\<close>

fun field :: "jsval \<Rightarrow> string \<Rightarrow> jsval" where
  "field (JObj kvs) k = (case map_of kvs k of None \<Rightarrow> JUndefined | Some v \<Rightarrow> v)"
| "field v k = JUndefined"

text \<open>\<^verbatim>\<open>v.k\<close> in general: reading a property of \<^verbatim>\<open>undefined\<close> or \<^verbatim>\<open>null\<close> throws a TypeError.\<close>

definition get_prop :: "jsval \<Rightarrow> string \<Rightarrow> exn + jsval" where
  "get_prop v k =
     (if nullish v then Inl (''TypeError: Cannot read properties of undefined or null (reading '' @ k @ '')'')
      else Inr (field v k))"

text \<open>
  \<^verbatim>\<open>s.split(".")\<close> on a string: the pieces between the dots; the empty string gives one
  empty piece.
\<close>

fun split_dot :: "string \<Rightarrow> string list" where
  "split_dot [] = [[]]"
| "split_dot (c # cs) =
     (if c = CHR ''.'' then [] # split_dot cs
      else (case split_dot cs of [] \<Rightarrow> [[c]] | s # ss \<Rightarrow> (c # s) # ss))"

text \<open>
  \<^verbatim>\<open>v.split(".")\<close> on any value: only a string has a \<^verbatim>\<open>split\<close> method; on \<^verbatim>\<open>undefined\<close> and
  \<^verbatim>\<open>null\<close> the property read throws, on every other value the call of \<^verbatim>\<open>undefined\<close> throws.
\<close>

fun split_of :: "jsval \<Rightarrow> exn + string list" where
  "split_of (JStr s) = Inr (split_dot s)"
| "split_of v =
     (if nullish v then Inl ''TypeError: Cannot read properties of undefined or null (reading split)''
      else Inl ''TypeError: split is not a function'')"

text \<open>
  \<^verbatim>\<open>xs[i]\<close> on an array of strings: the string there, or \<^verbatim>\<open>undefined\<close> (\<open>None\<close>) outside the
  array, also for a negative index.
\<close>

definition js_index :: "string list \<Rightarrow> int \<Rightarrow> string option" where
  "js_index xs i = (if 0 \<le> i \<and> i < int (length xs) then Some (xs ! nat i) else None)"

text \<open>Such an element as a value, and inside a template literal \<^verbatim>\<open>`${v}`\<close>.\<close>

definition seg_val :: "string option \<Rightarrow> jsval" where
  "seg_val v = (case v of None \<Rightarrow> JUndefined | Some s \<Rightarrow> JStr s)"

definition template :: "string option \<Rightarrow> string" where
  "template v = (case v of None \<Rightarrow> ''undefined'' | Some s \<Rightarrow> s)"

text \<open>
  The conversion of a value to a primitive, which a comparison with a string and a template
  literal apply to an array or object, throws a TypeError on an object that has a property
  \<^verbatim>\<open>toString\<close> of its own: a value out of \<^verbatim>\<open>JSON.parse\<close> is never a function, so that
  \<^verbatim>\<open>toString\<close> cannot be called, and \<^verbatim>\<open>valueOf\<close> gives back the object itself (or cannot be
  called either). An array converts by joining its elements, each of them converted to a
  string but \<^verbatim>\<open>null\<close> and \<^verbatim>\<open>undefined\<close>, so it throws when one of its elements does.
\<close>

fun conversion_throws :: "jsval \<Rightarrow> bool"
  and conversion_throws_in :: "jsval list \<Rightarrow> bool" where
  "conversion_throws (JObj kvs) = (map_of kvs ''toString'' \<noteq> None)"
| "conversion_throws (JArr xs) = conversion_throws_in xs"
| "conversion_throws JUndefined = False"
| "conversion_throws JNull = False"
| "conversion_throws (JBool b) = False"
| "conversion_throws (JNum n) = False"
| "conversion_throws (JStr s) = False"
| "conversion_throws_in [] = False"
| "conversion_throws_in (x # xs) = (conversion_throws x \<or> conversion_throws_in xs)"

text \<open>
  A value whose conversion is the text \<^verbatim>\<open>OFF\<close>: that string, or an array of one element
  that converts to it. Nothing else does: a number prints as digits, signs and letters of
  \<^verbatim>\<open>Infinity\<close>, \<^verbatim>\<open>NaN\<close> or an exponent, a boolean as \<^verbatim>\<open>true\<close> or \<^verbatim>\<open>false\<close>, an object as
  \<^verbatim>\<open>[object Object]\<close>; \<^verbatim>\<open>null\<close> and \<^verbatim>\<open>undefined\<close> are empty inside an array; the empty array is
  empty and an array of several elements holds a comma.
\<close>

fun converts_to_OFF :: "jsval \<Rightarrow> bool" where
  "converts_to_OFF (JStr s) = (s = ''OFF'')"
| "converts_to_OFF (JArr [x]) = converts_to_OFF x"
| "converts_to_OFF v = False"

text \<open>
  \<^verbatim>\<open>v != "OFF"\<close>, the loose inequality with the string \<^verbatim>\<open>"OFF"\<close>: a string is compared as
  it is; an array or object is converted to a primitive first, which may throw; a number or
  boolean is compared with the number that \<^verbatim>\<open>"OFF"\<close> converts to, which is NaN and equals
  nothing; \<^verbatim>\<open>null\<close> and \<^verbatim>\<open>undefined\<close> equal no string.
\<close>

definition loose_neq_OFF :: "jsval \<Rightarrow> exn + bool" where
  "loose_neq_OFF v =
     (if conversion_throws v then Inl ''TypeError: Cannot convert object to primitive value''
      else Inr (\<not> converts_to_OFF v))"

text \<open>\<^verbatim>\<open>a || b\<close>.\<close>

definition js_or :: "jsval \<Rightarrow> jsval \<Rightarrow> jsval" where
  "js_or a b = (if truthy a then a else b)"

text \<open>The letters outside ASCII that the log texts use, as their UTF-8 bytes.\<close>

definition a_uml :: string where
  "a_uml = [CHR 0xC3, CHR 0xA4]"

definition u_uml :: string where
  "u_uml = [CHR 0xC3, CHR 0xBC]"

definition apostrophe :: string where
  "apostrophe = [CHR 0x27]"

section \<open>The host: object tree, state store, subscriptions and log\<close>

text \<open>
  The host platform is a collaborator of the adapters, not part of them. It is a store of
  objects and of states, each under its identifier as the adapter passes it, with the
  adapter's subscriptions and its log. A log entry is the level, the text of the source's
  template and the values interpolated into it.
\<close>

datatype level = LSilly | LDebug | LInfo | LWarn | LError

record hobj =
  otype :: string
  common :: "string \<rightharpoonup> jsval"
  native :: "string \<rightharpoonup> jsval"

record host =
  objects :: "string \<rightharpoonup> hobj"
  states :: "string \<rightharpoonup> jsval \<times> bool"
  subscriptions :: "string set"
  logs :: "(level \<times> string \<times> jsval list) list"

definition log_msg :: "level \<Rightarrow> string \<Rightarrow> jsval list \<Rightarrow> 'a host_scheme \<Rightarrow> 'a host_scheme" where
  "log_msg l t args h = h\<lparr>logs := logs h @ [(l, t, args)]\<rparr>"

text \<open>\<^verbatim>\<open>setState(id, val, ack)\<close>: the state's value and its acknowledged flag are replaced.\<close>

definition setState :: "string \<Rightarrow> jsval \<Rightarrow> bool \<Rightarrow> 'a host_scheme \<Rightarrow> 'a host_scheme" where
  "setState sid v k h = h\<lparr>states := (states h)(sid \<mapsto> (v, k))\<rparr>"

text \<open>
  \<^verbatim>\<open>extendObject(id, obj)\<close>: the object is created when absent; otherwise the given
  properties are merged over the stored ones, which keep every property not given.
\<close>

definition merge_obj :: "hobj \<Rightarrow> hobj \<Rightarrow> hobj" where
  "merge_obj old new =
     \<lparr>otype = otype new, common = common old ++ common new, native = native old ++ native new\<rparr>"

definition extendObject :: "string \<Rightarrow> hobj \<Rightarrow> 'a host_scheme \<Rightarrow> 'a host_scheme" where
  "extendObject sid obj h =
     h\<lparr>objects := (objects h)(sid \<mapsto>
        (case objects h sid of None \<Rightarrow> obj | Some old \<Rightarrow> merge_obj old obj))\<rparr>"

text \<open>\<^verbatim>\<open>setObjectNotExistsAsync(id, obj)\<close>: the object is created when absent, else left as it is.\<close>

definition setObjectNotExists :: "string \<Rightarrow> hobj \<Rightarrow> 'a host_scheme \<Rightarrow> 'a host_scheme" where
  "setObjectNotExists sid obj h =
     (case objects h sid of None \<Rightarrow> h\<lparr>objects := (objects h)(sid \<mapsto> obj)\<rparr> | Some old \<Rightarrow> h)"

definition subscribeStates :: "string \<Rightarrow> 'a host_scheme \<Rightarrow> 'a host_scheme" where
  "subscribeStates pat h = h\<lparr>subscriptions := insert pat (subscriptions h)\<rparr>"

text \<open>
  A state as the host hands it to \<^verbatim>\<open>onStateChange\<close>: its value and its acknowledged flag
  (the time stamps and the origin of a state are read nowhere); \<^verbatim>\<open>null\<close> is \<open>None\<close>.
\<close>

record state_obj =
  val :: jsval
  ack :: bool

definition state_json :: "state_obj option \<Rightarrow> jsval" where
  "state_json st =
     (case st of None \<Rightarrow> JNull | Some s \<Rightarrow> JObj [(''val'', val s), (''ack'', JBool (ack s))])"

section \<open>The WebSocket adapter (main.js)\<close>

subsection \<open>Sockets and timers\<close>

text \<open>
  A socket of the \<^verbatim>\<open>ws\<close> library is known by its number; it carries the \<^verbatim>\<open>url\<close> and
  \<^verbatim>\<open>token\<close> that its handlers closed over, the headers it was opened with and its ready
  state. A pending timer is its handle, its delay in milliseconds and what it calls.
\<close>

datatype ready_state = CONNECTING | OPEN | CLOSING | CLOSED

record socket =
  sock_url :: string
  sock_token :: string
  sock_headers :: "(string \<times> string) list"
  ready :: ready_state

datatype callback =
    Reconnect string string
  | ResetButton string

record adapter = host +
  ws :: "nat option"
  reconnectTimeout :: "nat option"
  connected :: bool
  sockets :: "socket list"
  timers :: "(nat \<times> nat \<times> callback) list"
  timer_count :: nat
  outbox :: "(nat \<times> jsval) list"
  uncaught :: "exn list"
  unloaded :: bool

text \<open>The adapter as its constructor leaves it, on an empty host.\<close>

definition init_adapter :: adapter where
  "init_adapter =
     \<lparr>objects = Map.empty, states = Map.empty, subscriptions = {}, logs = [],
      ws = None, reconnectTimeout = None, connected = False, sockets = [], timers = [],
      timer_count = 0, outbox = [], uncaught = [], unloaded = False\<rparr>"

definition ready_of :: "adapter \<Rightarrow> nat \<Rightarrow> ready_state option" where
  "ready_of a s = (if s < length (sockets a) then Some (ready (sockets a ! s)) else None)"

definition set_ready :: "nat \<Rightarrow> ready_state \<Rightarrow> adapter \<Rightarrow> adapter" where
  "set_ready s r a = a\<lparr>sockets := (sockets a)[s := (sockets a ! s)\<lparr>ready := r\<rparr>]\<rparr>"

text \<open>
  \<^verbatim>\<open>socket.close()\<close>: a socket that is connecting or open starts closing; its \<^verbatim>\<open>close\<close>
  event comes later, as an event of its own. A socket that is closing or closed stays so.
\<close>

definition ws_close :: "nat \<Rightarrow> adapter \<Rightarrow> adapter" where
  "ws_close s a =
     (if ready_of a s = Some CONNECTING \<or> ready_of a s = Some OPEN then set_ready s CLOSING a
      else a)"

text \<open>
  \<^verbatim>\<open>this.ws.send(JSON.stringify(msg))\<close>; the frame is kept as the value \<^verbatim>\<open>msg\<close> it
  serialises. With no socket the property read throws; a connecting socket throws; an open
  one takes the frame; one that is closing or closed drops it silently.
\<close>

definition ws_send :: "jsval \<Rightarrow> adapter \<Rightarrow> exn option \<times> adapter" where
  "ws_send msg a =
     (case ws a of
        None \<Rightarrow> (Some ''TypeError: Cannot read properties of null (reading send)'', a)
      | Some s \<Rightarrow>
          (case ready_of a s of
             Some CONNECTING \<Rightarrow> (Some ''WebSocket is not open: readyState 0 (CONNECTING)'', a)
           | Some OPEN \<Rightarrow> (None, a\<lparr>outbox := outbox a @ [(s, msg)]\<rparr>)
           | _ \<Rightarrow> (None, a)))"

text \<open>\<^verbatim>\<open>setTimeout(cb, ms)\<close> returns a fresh handle; \<^verbatim>\<open>clearTimeout(h)\<close> drops the timer if it is pending.\<close>

definition set_timeout :: "callback \<Rightarrow> nat \<Rightarrow> adapter \<Rightarrow> nat \<times> adapter" where
  "set_timeout cb ms a =
     (timer_count a,
      a\<lparr>timers := timers a @ [(timer_count a, ms, cb)], timer_count := Suc (timer_count a)\<rparr>)"

definition clear_timeout :: "nat option \<Rightarrow> adapter \<Rightarrow> adapter" where
  "clear_timeout h a =
     (case h of None \<Rightarrow> a | Some t \<Rightarrow> a\<lparr>timers := filter (\<lambda>x. fst x \<noteq> t) (timers a)\<rparr>)"

subsection \<open>Outbound requests\<close>

definition subscribe_msg :: jsval where
  "subscribe_msg =
     JObj [(''kind'', JStr ''req''), (''id'', JNum 0), (''msg'', JStr ''subscribe_events''),
           (''msg_data'', JObj [(''channels'', JArr [JStr ''entity_activity''])])]"

definition get_entities_msg :: jsval where
  "get_entities_msg =
     JObj [(''kind'', JStr ''req''), (''id'', JNum 0), (''msg'', JStr ''get_entities''),
           (''msg_data'', JObj [(''filter'', JObj [(''entity_types'', JArr [JStr ''activity''])])])]"

definition start_msg :: "string option \<Rightarrow> jsval" where
  "start_msg actId =
     JObj [(''kind'', JStr ''req''), (''id'', JNum 0), (''msg'', JStr ''execute_entity_command''),
           (''msg_data'', JObj [(''entity_id'', JStr (''uc.main.'' @ template actId)),
                                (''cmd_id'', JStr ''activity.start'')])]"

definition subscribeActivities :: "adapter \<Rightarrow> exn option \<times> adapter" where
  "subscribeActivities a =
     ws_send subscribe_msg (log_msg LInfo ''Subscribe alle Activities auf der Remote 3  ...'' [] a)"

definition requestAllActivities :: "adapter \<Rightarrow> exn option \<times> adapter" where
  "requestAllActivities a =
     ws_send get_entities_msg (log_msg LInfo ''Fordere alle Activities von der Remote 3 an ...'' [] a)"

subsection \<open>Entities and inbound messages\<close>

definition channel_obj :: "jsval \<Rightarrow> hobj" where
  "channel_obj name = \<lparr>otype = ''channel'', common = [''name'' \<mapsto> name], native = Map.empty\<rparr>"

definition is_active_obj :: hobj where
  "is_active_obj =
     \<lparr>otype = ''state'',
      common = [''name'' \<mapsto> JStr ''Activity aktiv?'', ''type'' \<mapsto> JStr ''boolean'',
                ''role'' \<mapsto> JStr ''indicator'', ''read'' \<mapsto> JBool True, ''write'' \<mapsto> JBool False],
      native = Map.empty\<rparr>"

definition start_obj :: hobj where
  "start_obj =
     \<lparr>otype = ''state'',
      common = [''name'' \<mapsto> JStr (''Starte diese Aktivit'' @ a_uml @ ''t''), ''type'' \<mapsto> JStr ''boolean'',
                ''role'' \<mapsto> JStr ''button'', ''read'' \<mapsto> JBool False, ''write'' \<mapsto> JBool True],
      native = Map.empty\<rparr>"

text \<open>
  \<^verbatim>\<open>createOrUpdateActivity(act)\<close>. It returns the exception it throws, if any, with the
  adapter as the statements before the throw left it: the argument of the \<^verbatim>\<open>setState\<close> is
  computed after the first two objects have been extended.
\<close>

definition createOrUpdateActivity :: "jsval \<Rightarrow> adapter \<Rightarrow> exn option \<times> adapter" where
  "createOrUpdateActivity act a =
     (case get_prop act ''entity_id'' of
        Inl e \<Rightarrow> (Some e, a)
      | Inr eid \<Rightarrow>
          (case split_of eid of
             Inl e \<Rightarrow> (Some e, a)
           | Inr segs \<Rightarrow>
               (case get_prop (field act ''name'') ''de_DE'' of
                  Inl e \<Rightarrow> (Some e, a)
                | Inr de \<Rightarrow>
                    (let ident = js_index segs 2;
                         name = js_or (js_or de (field (field act ''name'') ''en_US'')) (seg_val ident);
                         key = ''activities.'' @ template ident;
                         a1 = extendObject key (channel_obj name) a;
                         a2 = extendObject (key @ ''.is_active'') is_active_obj a1
                     in (case get_prop (field act ''attributes'') ''state'' of
                           Inl e \<Rightarrow> (Some e, a2)
                         | Inr st \<Rightarrow>
                             (case loose_neq_OFF st of
                                Inl e \<Rightarrow> (Some e, a2)
                              | Inr active \<Rightarrow>
                                  (let a3 = setState (key @ ''.is_active'') (JBool active) True a2;
                                       a4 = subscribeStates (key @ ''.start'') a3
                                   in (None, extendObject (key @ ''.start'') start_obj a4))))))))"

text \<open>
  The loop over the entities of a response; a throw ends it. \<^verbatim>\<open>createOrUpdateActivity\<close>
  awaits nothing, so no other handler runs between two entities.
\<close>

fun create_all :: "jsval list \<Rightarrow> adapter \<Rightarrow> exn option \<times> adapter" where
  "create_all [] a = (None, a)"
| "create_all (act # acts) a =
     (case createOrUpdateActivity act a of
        (Some e, a') \<Rightarrow> (Some e, a')
      | (None, a') \<Rightarrow> create_all acts a')"

text \<open>The branch of \<^verbatim>\<open>handleMessage\<close> for a response: the first list of all activities.\<close>

definition handle_resp :: "jsval \<Rightarrow> adapter \<Rightarrow> exn option \<times> adapter" where
  "handle_resp msg a =
     (if field msg ''kind'' = JStr ''resp'' \<and> field msg ''code'' = JNum 200 then
        (if field msg ''msg'' = JStr ''entities''
            \<and> truthy (field (field msg ''msg_data'') ''entities'')
            \<and> is_array (field (field msg ''msg_data'') ''entities'')
         then (case field (field msg ''msg_data'') ''entities'' of
                 JArr acts \<Rightarrow> create_all acts a
               | v \<Rightarrow> (None, a))
         else (None, a))
      else (None, a))"

text \<open>
  The test of \<^verbatim>\<open>handleMessage\<close> for an event that changes an activity (\<^verbatim>\<open>msg.kind\<close> is
  tested before it).
\<close>

definition is_activity_change :: "jsval \<Rightarrow> bool" where
  "is_activity_change msg =
     (field msg ''msg'' = JStr ''entity_change'' \<and> field msg ''cat'' = JStr ''ENTITY''
      \<and> truthy (field msg ''msg_data'')
      \<and> field (field msg ''msg_data'') ''entity_type'' = JStr ''activity''
      \<and> field (field msg ''msg_data'') ''event_type'' = JStr ''CHANGE''
      \<and> truthy (field (field msg ''msg_data'') ''new_state''))"

text \<open>The branch of \<^verbatim>\<open>handleMessage\<close> for an event: the state of one activity changed.\<close>

definition handle_event :: "jsval \<Rightarrow> adapter \<Rightarrow> exn option \<times> adapter" where
  "handle_event msg a =
     (if field msg ''kind'' = JStr ''event'' then
        (if is_activity_change msg then
           (let act = field msg ''msg_data''
            in (case split_of (field act ''entity_id'') of
                  Inl e \<Rightarrow> (Some e, a)
                | Inr segs \<Rightarrow>
                    (case get_prop (field (field act ''new_state'') ''attributes'') ''state'' of
                       Inl e \<Rightarrow> (Some e, a)
                     | Inr nstate \<Rightarrow>
                         (let ident = js_index segs 2;
                              isActive = (nstate = JStr ''ON'')
                          in if nstate = JStr ''ON'' \<or> nstate = JStr ''OFF'' then
                               (None,
                                setState (''activities.'' @ template ident @ ''.is_active'') (JBool isActive) True
                                  (log_msg LInfo
                                     (''Aktivit'' @ a_uml @ ''t-Status ge'' @ a_uml @ ''ndert: ${id} => is_active=${isActive}'')
                                     [seg_val ident, JBool isActive] a))
                             else (None, a)))))
         else (None, a))
      else (None, a))"

text \<open>
  \<^verbatim>\<open>handleMessage(msg)\<close>. The second log line reads \<^verbatim>\<open>msg.msg\<close> before \<^verbatim>\<open>msg\<close> is tested,
  which throws on \<^verbatim>\<open>null\<close>, and puts it into a template literal, which throws when it has no
  conversion to a primitive.
\<close>

definition handleMessage :: "jsval \<Rightarrow> adapter \<Rightarrow> exn option \<times> adapter" where
  "handleMessage msg a =
     (let a1 = log_msg LSilly ''Empfangene WS-Nachricht: ${JSON.stringify(msg)}'' [msg] a
      in (case get_prop msg ''msg'' of
            Inl e \<Rightarrow> (Some e, a1)
          | Inr m \<Rightarrow>
              if conversion_throws m then
                (Some ''TypeError: Cannot convert object to primitive value'', a1)
              else
                (let a2 = log_msg LDebug ''Empfangene WS-Nachricht: ${msg.msg}'' [m] a1
                 in if truthy msg \<and> truthy (field msg ''msg_data'') then
                      (case handle_resp msg a2 of
                         (Some e, a3) \<Rightarrow> (Some e, a3)
                       | (None, a3) \<Rightarrow> handle_event msg a3)
                    else (None, a2))))"

subsection \<open>The handlers of a socket\<close>

text \<open>
  \<^verbatim>\<open>connectWebSocket(url, token)\<close>: the socket in \<^verbatim>\<open>this.ws\<close>, if any, is told to close, and a
  new one is opened (the url is taken to be one the library accepts).
\<close>

definition connectWebSocket :: "string \<Rightarrow> string \<Rightarrow> adapter \<Rightarrow> adapter" where
  "connectWebSocket url token a =
     (let a1 = (case ws a of None \<Rightarrow> a | Some s \<Rightarrow> ws_close s a);
          headers = (if token \<noteq> [] then [(''API-KEY'', token)] else [])
      in a1\<lparr>ws := Some (length (sockets a1)),
             sockets := sockets a1 @
               [\<lparr>sock_url = url, sock_token = token, sock_headers = headers, ready = CONNECTING\<rparr>]\<rparr>)"

text \<open>An exception that leaves a handler is caught by nobody.\<close>

definition escape :: "exn option \<times> adapter \<Rightarrow> adapter" where
  "escape r = (case r of (None, a) \<Rightarrow> a | (Some e, a) \<Rightarrow> a\<lparr>uncaught := uncaught a @ [e]\<rparr>)"

definition on_open :: "adapter \<Rightarrow> adapter" where
  "on_open a =
     (let a1 = a\<lparr>connected := True\<rparr>;
          a2 = setState ''info.connection'' (JBool True) True a1;
          a3 = log_msg LInfo ''WebSocket verbunden mit Remote 3.'' [] a2
      in (case subscribeActivities a3 of
            (Some e, a4) \<Rightarrow> escape (Some e, a4)
          | (None, a4) \<Rightarrow> escape (requestAllActivities a4)))"

text \<open>
  The message handler. \<open>parse\<close> is \<^verbatim>\<open>JSON.parse\<close>: the value, or the message of the
  SyntaxError it throws. \<^verbatim>\<open>handleMessage\<close> is asynchronous and is not awaited, so what it
  throws is a rejected promise that the \<^verbatim>\<open>catch\<close> here does not see.
\<close>

definition on_message :: "(string \<Rightarrow> exn + jsval) \<Rightarrow> string \<Rightarrow> adapter \<Rightarrow> adapter" where
  "on_message parse data a =
     (case parse data of
        Inr msg \<Rightarrow> escape (handleMessage msg a)
      | Inl err \<Rightarrow> log_msg LWarn ''Fehler beim Parsen von WS-Nachricht: ${err.message}'' [JStr err] a)"

definition on_close :: "string \<Rightarrow> string \<Rightarrow> adapter \<Rightarrow> adapter" where
  "on_close url token a =
     (let a1 = a\<lparr>connected := False\<rparr>;
          a2 = setState ''info.connection'' (JBool False) True a1;
          a3 = log_msg LWarn ''WebSocket getrennt. Reconnect in 5s ...'' [] a2;
          a4 = (case reconnectTimeout a3 of None \<Rightarrow> a3 | Some t \<Rightarrow> clear_timeout (Some t) a3);
          (t', a5) = set_timeout (Reconnect url token) 5000 a4
      in a5\<lparr>reconnectTimeout := Some t'\<rparr>)"

definition on_error :: "exn \<Rightarrow> adapter \<Rightarrow> adapter" where
  "on_error err a = log_msg LError ''WebSocket-Fehler: ${err.message}'' [JStr err] a"

subsection \<open>The handlers of the host's events\<close>

definition onStateChange :: "string \<Rightarrow> state_obj option \<Rightarrow> adapter \<Rightarrow> adapter" where
  "onStateChange sid st a =
     (let a0 = log_msg LDebug ''StateChange: ${id} => ${JSON.stringify(state)}'' [JStr sid, state_json st] a
      in (case st of
            None \<Rightarrow> a0
          | Some s \<Rightarrow>
              if ack s then a0
              else
                (let parts = split_dot sid;
                     actId = js_index parts (int (length parts) - 2);
                     command = js_index parts (int (length parts) - 1)
                 in if command = Some ''start'' \<and> val s = JBool True \<and> connected a0 then
                      (let a1 = log_msg LInfo (''Starte Aktivit'' @ a_uml @ ''t '' @ u_uml @ ''ber WebSocket: ${actId}'') [seg_val actId] a0;
                           a2 = (case ws_send (start_msg actId) a1 of
                                   (None, b) \<Rightarrow>
                                     log_msg LInfo (''Startbefehl f'' @ u_uml @ ''r '' @ apostrophe @ ''${actId}'' @ apostrophe @ '' gesendet.'') [seg_val actId] b
                                 | (Some e, b) \<Rightarrow>
                                     log_msg LError ''Fehler beim Senden von Startbefehl: ${err.message}'' [JStr e] b)
                       in snd (set_timeout (ResetButton sid) 500 a2))
                    else a0)))"

text \<open>\<^verbatim>\<open>onUnload(callback)\<close>; the callback tells the host that the adapter has stopped.\<close>

definition onUnload :: "adapter \<Rightarrow> adapter" where
  "onUnload a =
     (let a1 = (case ws a of None \<Rightarrow> a | Some s \<Rightarrow> ws_close s a);
          a2 = clear_timeout (reconnectTimeout a1) a1
      in a2\<lparr>unloaded := True\<rparr>)"

subsection \<open>Events\<close>

text \<open>
  The adapter runs one handler at a time, in the order the events arrive. \<open>Start\<close> is
  \<^verbatim>\<open>onReady\<close>'s call \<^verbatim>\<open>connectWebSocket(wsUrl, token)\<close>, which the host brings about
  once, while there is no socket yet. A socket opens only while it is
  connecting, delivers a message only while it is open and emits \<^verbatim>\<open>close\<close> once, whether
  the peer, the network or a call of \<^verbatim>\<open>close()\<close> ended it; a timer fires only while it is
  pending. An event that cannot happen in the state at hand changes nothing.
\<close>

datatype event =
    Start string string
  | SocketOpen nat
  | SocketMessage nat string
  | SocketClose nat
  | SocketError nat exn
  | TimerFire nat
  | StateChange string "state_obj option"
  | Unload

fun run_callback :: "callback \<Rightarrow> adapter \<Rightarrow> adapter" where
  "run_callback (Reconnect url token) a = connectWebSocket url token a"
| "run_callback (ResetButton sid) a = setState sid (JBool False) True a"

definition fire_timer :: "nat \<Rightarrow> adapter \<Rightarrow> adapter" where
  "fire_timer t a =
     (case find (\<lambda>x. fst x = t) (timers a) of
        None \<Rightarrow> a
      | Some x \<Rightarrow> run_callback (snd (snd x)) (a\<lparr>timers := filter (\<lambda>x. fst x \<noteq> t) (timers a)\<rparr>))"

fun step :: "(string \<Rightarrow> exn + jsval) \<Rightarrow> adapter \<Rightarrow> event \<Rightarrow> adapter" where
  "step parse a (Start url token) = (if ws a = None then connectWebSocket url token a else a)"
| "step parse a (SocketOpen s) =
     (if ready_of a s = Some CONNECTING then on_open (set_ready s OPEN a) else a)"
| "step parse a (SocketMessage s data) =
     (if ready_of a s = Some OPEN then on_message parse data a else a)"
| "step parse a (SocketClose s) =
     (if ready_of a s = None \<or> ready_of a s = Some CLOSED then a
      else on_close (sock_url (sockets a ! s)) (sock_token (sockets a ! s)) (set_ready s CLOSED a))"
| "step parse a (SocketError s err) = (if s < length (sockets a) then on_error err a else a)"
| "step parse a (TimerFire t) = fire_timer t a"
| "step parse a (StateChange sid st) = onStateChange sid st a"
| "step parse a Unload = onUnload a"

text \<open>The adapter after a sequence of events.\<close>

definition run :: "(string \<Rightarrow> exn + jsval) \<Rightarrow> event list \<Rightarrow> adapter" where
  "run parse evs = foldl (step parse) init_adapter evs"

text \<open>
  The handlers called one after another in any order whatever, and the sockets changing
  their state in between in any way whatever: also in an order in which the sockets and the
  host above never do, a second \<^verbatim>\<open>close\<close> while a reconnect is pending, say. Every sequence
  of events above is such a sequence of calls.
\<close>

datatype call =
    CallConnect string string
  | CallOpen
  | CallMessage string
  | CallClose string string
  | CallError exn
  | CallTimer nat
  | CallStateChange string "state_obj option"
  | CallUnload
  | CallSetReady nat ready_state

fun invoke :: "(string \<Rightarrow> exn + jsval) \<Rightarrow> adapter \<Rightarrow> call \<Rightarrow> adapter" where
  "invoke parse a (CallConnect url token) = connectWebSocket url token a"
| "invoke parse a CallOpen = on_open a"
| "invoke parse a (CallMessage data) = on_message parse data a"
| "invoke parse a (CallClose url token) = on_close url token a"
| "invoke parse a (CallError err) = on_error err a"
| "invoke parse a (CallTimer t) = fire_timer t a"
| "invoke parse a (CallStateChange sid st) = onStateChange sid st a"
| "invoke parse a CallUnload = onUnload a"
| "invoke parse a (CallSetReady s r) = set_ready s r a"

definition run_calls :: "(string \<Rightarrow> exn + jsval) \<Rightarrow> call list \<Rightarrow> adapter" where
  "run_calls parse cs = foldl (invoke parse) init_adapter cs"

text \<open>The pending timers that will reconnect.\<close>

fun is_reconnect :: "nat \<times> nat \<times> callback \<Rightarrow> bool" where
  "is_reconnect (h, ms, Reconnect url token) = True"
| "is_reconnect (h, ms, ResetButton sid) = False"

definition reconnect_timers :: "adapter \<Rightarrow> (nat \<times> nat \<times> callback) list" where
  "reconnect_timers a = filter is_reconnect (timers a)"

text \<open>
  What the timers keep true: every pending handle was handed out before, no handle is
  pending twice, and a pending reconnect timer is the one \<^verbatim>\<open>this.reconnectTimeout\<close> holds.
\<close>

definition timer_inv :: "adapter \<Rightarrow> bool" where
  "timer_inv a =
     (list_all (\<lambda>x. fst x < timer_count a) (timers a)
      \<and> list_all (\<lambda>x. reconnectTimeout a = Some (fst x)) (reconnect_timers a)
      \<and> distinct (map fst (timers a)))"

text \<open>Two adapters with the same timers, the same next handle and the same \<^verbatim>\<open>this.reconnectTimeout\<close>.\<close>

definition same_timers :: "adapter \<Rightarrow> adapter \<Rightarrow> bool" where
  "same_timers a b =
     (timers b = timers a \<and> timer_count b = timer_count a \<and> reconnectTimeout b = reconnectTimeout a)"

text \<open>Two adapters with the same sockets, the same \<^verbatim>\<open>this.ws\<close> and the same connected flag.\<close>

definition same_conn :: "adapter \<Rightarrow> adapter \<Rightarrow> bool" where
  "same_conn a b = (sockets b = sockets a \<and> ws b = ws a \<and> connected b = connected a)"



section \<open>The one-shot REST adapter (its \<^verbatim>\<open>onStateChange\<close>)\<close>

text \<open>
  The REST adapter keeps the base of the hub's address and, here, the requests it has
  posted: the address and the body of each.
\<close>

record rest_adapter = host +
  restBase :: string
  posts :: "(string \<times> jsval) list"

text \<open>
  \<^verbatim>\<open>id.match(/^([^.]+)\.([^.]+)\.actions\.([^.]+)$/)\<close>: four pieces between dots, the
  third one \<^verbatim>\<open>actions\<close>, the others not empty.
\<close>

definition match_action :: "string \<Rightarrow> (string \<times> string \<times> string) option" where
  "match_action sid =
     (case split_dot sid of
        [t, orig, actions, action] \<Rightarrow>
          (if t \<noteq> [] \<and> orig \<noteq> [] \<and> actions = ''actions'' \<and> action \<noteq> [] then Some (t, orig, action)
           else None)
      | segs \<Rightarrow> None)"

text \<open>
  \<^verbatim>\<open>s.trim()\<close> is empty: the string holds nothing but white space and line terminators. A
  character beyond ASCII is here the bytes of its UTF-8 form: U+00A0 is \<^verbatim>\<open>C2 A0\<close>, U+1680 is
  \<^verbatim>\<open>E1 9A 80\<close>, U+2000 to U+200A are \<^verbatim>\<open>E2 80 80\<close> to \<^verbatim>\<open>E2 80 8A\<close>, U+2028 and U+2029 are
  \<^verbatim>\<open>E2 80 A8\<close> and \<^verbatim>\<open>E2 80 A9\<close>, U+202F is \<^verbatim>\<open>E2 80 AF\<close>, U+205F is \<^verbatim>\<open>E2 81 9F\<close>, U+3000 is
  \<^verbatim>\<open>E3 80 80\<close> and U+FEFF is \<^verbatim>\<open>EF BB BF\<close>.
\<close>

definition space1 :: "char \<Rightarrow> bool" where
  "space1 a = (a \<in> set [CHR 0x09, CHR 0x0A, CHR 0x0B, CHR 0x0C, CHR 0x0D, CHR 0x20])"

definition space2 :: "char \<Rightarrow> char \<Rightarrow> bool" where
  "space2 a b = (a = CHR 0xC2 \<and> b = CHR 0xA0)"

definition space3 :: "char \<Rightarrow> char \<Rightarrow> char \<Rightarrow> bool" where
  "space3 a b c =
     ((a = CHR 0xE1 \<and> b = CHR 0x9A \<and> c = CHR 0x80)
      \<or> (a = CHR 0xE2 \<and> b = CHR 0x80
          \<and> ((0x80 \<le> (of_char c :: nat) \<and> (of_char c :: nat) \<le> 0x8A)
              \<or> c = CHR 0xA8 \<or> c = CHR 0xA9 \<or> c = CHR 0xAF))
      \<or> (a = CHR 0xE2 \<and> b = CHR 0x81 \<and> c = CHR 0x9F)
      \<or> (a = CHR 0xE3 \<and> b = CHR 0x80 \<and> c = CHR 0x80)
      \<or> (a = CHR 0xEF \<and> b = CHR 0xBB \<and> c = CHR 0xBF))"

fun blank :: "string \<Rightarrow> bool" where
  "blank [] = True"
| "blank [a] = space1 a"
| "blank [a, b] = (if space1 a then blank [b] else space2 a b)"
| "blank (a # b # c # cs) =
     (if space1 a then blank (b # c # cs)
      else if space2 a b then blank (c # cs)
      else if space3 a b c then blank cs
      else False)"

definition error_obj :: hobj where
  "error_obj =
     \<lparr>otype = ''state'',
      common = [''name'' \<mapsto> JStr ''last action error'', ''type'' \<mapsto> JStr ''string'',
                ''role'' \<mapsto> JStr ''text'', ''read'' \<mapsto> JBool True, ''write'' \<mapsto> JBool False],
      native = Map.empty\<rparr>"

text \<open>The \<^verbatim>\<open>catch\<close> block: the state is not acknowledged; the error is written beside it.\<close>

definition action_failed :: "exn \<Rightarrow> string \<Rightarrow> rest_adapter \<Rightarrow> rest_adapter" where
  "action_failed err sid a =
     (let a1 = log_msg LError ''Action call failed: '' [JStr err] a;
          errId = sid @ ''_error'';
          a2 = setObjectNotExists errId error_obj a1
      in setState errId (JStr err) True a2)"

text \<open>
  The id of the entity at the hub: the one stored in the channel's \<^verbatim>\<open>native\<close> part when
  there is a channel and it holds a truthy one, else the segment of the state's id.
\<close>

definition orig_id :: "hobj option \<Rightarrow> string \<Rightarrow> jsval" where
  "orig_id channelObj safeOrigId =
     (let stored = (case channelObj of
                      None \<Rightarrow> JUndefined
                    | Some c \<Rightarrow>
                        (case native c ''unfolded_original_id'' of
                           None \<Rightarrow> JUndefined
                         | Some v \<Rightarrow> v))
      in if truthy stored then stored else JStr safeOrigId)"

text \<open>\<^verbatim>\<open>actionSafe.replace(/_/g, ' ')\<close>.\<close>

definition action_name :: "string \<Rightarrow> string" where
  "action_name actionSafe = map (\<lambda>c. if c = CHR ''_'' then CHR '' '' else c) actionSafe"

text \<open>
  The body of the request: \<^verbatim>\<open>state.val\<close> parsed when it is a string with more than white
  space in it, \<^verbatim>\<open>{ value: state.val }\<close> when that string does not parse, else \<^verbatim>\<open>{}\<close>.
\<close>

definition action_body :: "(string \<Rightarrow> exn + jsval) \<Rightarrow> jsval \<Rightarrow> jsval" where
  "action_body parse v =
     (case v of
        JStr t \<Rightarrow>
          (if \<not> blank t then
             (case parse t of
                Inr b \<Rightarrow> b
              | Inl e \<Rightarrow> JObj [(''value'', JStr t)])
           else JObj [])
      | w \<Rightarrow> JObj [])"

text \<open>
  \<^verbatim>\<open>onStateChange(id, state)\<close> of the REST adapter. What the world answers is given:
  \<open>parse\<close> is \<^verbatim>\<open>JSON.parse\<close>; \<open>encode\<close> is \<^verbatim>\<open>encodeURIComponent\<close>, which gives its
  argument converted to a string and percent-encoded or throws (a TypeError when the
  argument has no conversion, a URIError on half a surrogate pair); \<open>chan\<close> is what
  \<^verbatim>\<open>getForeignObjectAsync\<close> gives for the entity's channel (an exception, no object, or the
  object); \<open>post\<close> is what \<^verbatim>\<open>axios.post\<close> gives (an exception or the status of the
  response); \<open>now\<close> is the time \<^verbatim>\<open>new Date().toISOString()\<close>. The address is put together
  before the log line that also prints \<^verbatim>\<open>origId\<close>, so where that line is reached the
  conversion of \<^verbatim>\<open>origId\<close> has just succeeded. The handler is taken as one step, from the
  call to its last write.
\<close>

definition rest_onStateChange ::
  "(string \<Rightarrow> exn + jsval) \<Rightarrow> (jsval \<Rightarrow> exn + string) \<Rightarrow> exn + hobj option \<Rightarrow> exn + int
     \<Rightarrow> string \<Rightarrow> string \<Rightarrow> state_obj option \<Rightarrow> rest_adapter \<Rightarrow> rest_adapter" where
  "rest_onStateChange parse encode chan post now sid st a =
     (case st of
        None \<Rightarrow> a
      | Some s \<Rightarrow>
          if ack s then a
          else
            (let a0 = log_msg LDebug ''stateChange ${id} -> ${JSON.stringify(state)}'' [JStr sid, state_json st] a
             in (case match_action sid of
                   None \<Rightarrow> a0
                 | Some (type, safeOrigId, actionSafe) \<Rightarrow>
                     (case chan of
                        Inl err \<Rightarrow> action_failed err sid a0
                      | Inr channelObj \<Rightarrow>
                          (let origId = orig_id channelObj safeOrigId;
                               actionName = action_name actionSafe;
                               body = action_body parse (val s)
                           in (case encode origId of
                                 Inl err \<Rightarrow> action_failed err sid a0
                               | Inr encId \<Rightarrow>
                                   (case encode (JStr actionName) of
                                      Inl err \<Rightarrow> action_failed err sid a0
                                    | Inr encAction \<Rightarrow>
                                        (let url = restBase a0 @ ''/api/v1/entities/'' @ encId
                                                     @ ''/actions/'' @ encAction;
                                             a1 = log_msg LInfo
                                                    ''Calling action ${actionName} for entity ${origId} -> ${url}''
                                                    [JStr actionName, origId, JStr url] a0;
                                             a2 = a1\<lparr>posts := posts a1 @ [(url, body)]\<rparr>
                                         in (case post of
                                               Inl err \<Rightarrow> action_failed err sid a2
                                             | Inr status \<Rightarrow>
                                                 (let a3 = log_msg LDebug ''Action result status ${res.status}''
                                                             [JNum status] a2;
                                                      a4 = setState sid (val s) True a3
                                                  in setState (type @ ''.'' @ safeOrigId @ ''.lastUpdate'')
                                                       (JStr now) True a4))))))))))"

section \<open>Example inputs\<close>

text \<open>An activity as the hub lists it, and the event the hub sends when its state changes.\<close>

definition example_entity :: "string \<Rightarrow> jsval \<Rightarrow> jsval" where
  "example_entity eid st =
     JObj [(''entity_id'', JStr eid), (''entity_type'', JStr ''activity''),
           (''name'', JObj [(''en_US'', JStr ''Kitchen'')]),
           (''attributes'', JObj [(''state'', st)])]"

definition example_change :: "string \<Rightarrow> jsval \<Rightarrow> jsval" where
  "example_change eid st =
     JObj [(''kind'', JStr ''event''), (''msg'', JStr ''entity_change''), (''cat'', JStr ''ENTITY''),
           (''msg_data'', JObj [(''entity_type'', JStr ''activity''), (''event_type'', JStr ''CHANGE''),
              (''entity_id'', JStr eid),
              (''new_state'', JObj [(''attributes'', JObj [(''state'', st)])])])]"

text \<open>The REST adapter on an empty host.\<close>

definition example_rest :: rest_adapter where
  "example_rest =
     \<lparr>objects = Map.empty, states = Map.empty, subscriptions = {}, logs = [],
      restBase = ''http://192.168.1.50:80'', posts = []\<rparr>"

text \<open>
  A channel whose stored id is an object with a \<^verbatim>\<open>toString\<close> property of its own, which is
  no function; and \<^verbatim>\<open>encodeURIComponent\<close> as far as these examples need it: a string of
  unreserved characters is its own encoding, and a value with no conversion to a string
  makes it throw.
\<close>

definition example_channel :: hobj where
  "example_channel =
     \<lparr>otype = ''channel'', common = [''name'' \<mapsto> JStr ''a1''],
      native = [''unfolded_original_id'' \<mapsto> JObj [(''toString'', JNum 1)]]\<rparr>"

definition example_encode :: "jsval \<Rightarrow> exn + string" where
  "example_encode v =
     (case v of
        JStr t \<Rightarrow> Inr t
      | w \<Rightarrow> Inl ''Cannot convert object to primitive value'')"

section \<open>Facts about the helpers\<close>

lemma split_dot_not_Nil: "split_dot s \<noteq> []"
  by (induction s) (auto split: list.splits)

lemma split_dot_append_dot: "split_dot (xs @ CHR ''.'' # ys) = split_dot xs @ split_dot ys"
  by (induction xs) (auto split: list.splits simp: split_dot_not_Nil)

lemma split_dot_no_dot: "CHR ''.'' \<notin> set s \<Longrightarrow> split_dot s = [s]"
  by (induction s) auto



text \<open>The adapter once its first socket has opened.\<close>

lemma connected_state:
  "connected (run parse [Start url token, SocketOpen 0])"
  "ws (run parse [Start url token, SocketOpen 0]) = Some 0"
  "ready_of (run parse [Start url token, SocketOpen 0]) 0 = Some OPEN"
  "timers (run parse [Start url token, SocketOpen 0]) = []"
  "timer_count (run parse [Start url token, SocketOpen 0]) = 0"
  "outbox (run parse [Start url token, SocketOpen 0]) = [(0, subscribe_msg), (0, get_entities_msg)]"
  by (simp_all add: run_def init_adapter_def connectWebSocket_def ready_of_def set_ready_def
      on_open_def setState_def log_msg_def subscribeActivities_def requestAllActivities_def
      ws_send_def escape_def Let_def)

section \<open>Properties of the command dispatcher\<close>

text \<open>
  C3, as the code has it. A write while \<^verbatim>\<open>this.connected\<close> is false, also one of
  \<^verbatim>\<open>true\<close> to a \<^verbatim>\<open>start\<close> node, adds the debug line that every state change gets to the log
  and changes nothing else: no frame is sent, no reset of the trigger is scheduled, no
  state is written, and no error is logged.
\<close>

theorem write_while_disconnected_only_debug_log:
  assumes "\<not> connected a"
  shows "onStateChange sid st a =
           a\<lparr>logs := logs a @
              [(LDebug, ''StateChange: ${id} => ${JSON.stringify(state)}'', [JStr sid, state_json st])]\<rparr>"
  using assms by (simp add: onStateChange_def log_msg_def Let_def split: option.splits)

theorem write_while_disconnected_only_debug_log_witness:
  "\<not> connected init_adapter
   \<and> onStateChange ''unfolded.0.activities.kitchen.start'' (Some \<lparr>val = JBool True, ack = False\<rparr>) init_adapter =
      init_adapter\<lparr>logs := logs init_adapter @
        [(LDebug, ''StateChange: ${id} => ${JSON.stringify(state)}'',
          [JStr ''unfolded.0.activities.kitchen.start'', state_json (Some \<lparr>val = JBool True, ack = False\<rparr>)])]\<rparr>"
  using write_while_disconnected_only_debug_log
    [of init_adapter "''unfolded.0.activities.kitchen.start''" "Some \<lparr>val = JBool True, ack = False\<rparr>"]
  by (simp add: init_adapter_def)

text \<open>
  C3, as the specification states it, asks for an error in the log. On the adapter that has
  never connected, an unacknowledged write of \<^verbatim>\<open>true\<close> to \<^verbatim>\<open>activities.kitchen.start\<close>
  leaves one log entry, at level debug.
\<close>

theorem start_while_disconnected_logs_no_error:
  "map fst (logs (onStateChange ''unfolded.0.activities.kitchen.start''
                    (Some \<lparr>val = JBool True, ack = False\<rparr>) init_adapter)) = [LDebug]"
  by (simp add: onStateChange_def init_adapter_def log_msg_def Let_def)


text \<open>
  C10. A state change whose state is \<^verbatim>\<open>null\<close>, or acknowledged, or whose value is not the
  boolean \<^verbatim>\<open>true\<close>, adds the debug line to the log and changes nothing else: no frame is
  sent, no timer is scheduled and the host's objects and states stay as they are. The
  adapter's own reset of a trigger writes \<^verbatim>\<open>false\<close> with acknowledgment, so it is such a
  change.
\<close>

theorem no_command_without_true_user_write:
  assumes "st = None \<or> (\<exists>s. st = Some s \<and> (ack s \<or> val s \<noteq> JBool True))"
  shows "onStateChange sid st a =
           a\<lparr>logs := logs a @
              [(LDebug, ''StateChange: ${id} => ${JSON.stringify(state)}'', [JStr sid, state_json st])]\<rparr>"
  using assms by (auto simp add: onStateChange_def log_msg_def Let_def)

theorem no_command_without_true_user_write_witness:
  "(Some \<lparr>val = JBool False, ack = True\<rparr> = None
      \<or> (\<exists>s. Some \<lparr>val = JBool False, ack = True\<rparr> = Some s \<and> (ack s \<or> val s \<noteq> JBool True)))
   \<and> onStateChange ''unfolded.0.activities.kitchen.start'' (Some \<lparr>val = JBool False, ack = True\<rparr>) init_adapter =
      init_adapter\<lparr>logs := logs init_adapter @
        [(LDebug, ''StateChange: ${id} => ${JSON.stringify(state)}'',
          [JStr ''unfolded.0.activities.kitchen.start'', state_json (Some \<lparr>val = JBool False, ack = True\<rparr>)])]\<rparr>"
  using no_command_without_true_user_write
    [of "Some \<lparr>val = JBool False, ack = True\<rparr>" "''unfolded.0.activities.kitchen.start''" init_adapter]
  by simp

section \<open>Properties of the message handler\<close>

text \<open>
  C8. When \<^verbatim>\<open>JSON.parse\<close> throws on the payload of a frame, the message handler adds
  one warning to the log and does nothing else: \<^verbatim>\<open>handleMessage\<close> is not called, no
  object, state or subscription of the host changes, nothing is sent, and no exception
  leaves the handler.
\<close>

theorem malformed_frame_dropped:
  assumes "parse data = Inl err"
  shows "on_message parse data a =
           a\<lparr>logs := logs a @ [(LWarn, ''Fehler beim Parsen von WS-Nachricht: ${err.message}'', [JStr err])]\<rparr>"
  using assms by (simp add: on_message_def log_msg_def)

theorem malformed_frame_dropped_witness:
  "(\<lambda>d. if d = ''null'' then Inr JNull else Inl ''Unexpected token k in JSON at position 1'') ''{kind:''
     = Inl ''Unexpected token k in JSON at position 1''
   \<and> on_message (\<lambda>d. if d = ''null'' then Inr JNull else Inl ''Unexpected token k in JSON at position 1'')
        ''{kind:'' init_adapter =
      init_adapter\<lparr>logs := logs init_adapter @
        [(LWarn, ''Fehler beim Parsen von WS-Nachricht: ${err.message}'',
          [JStr ''Unexpected token k in JSON at position 1''])]\<rparr>"
  using malformed_frame_dropped
    [of "\<lambda>d. if d = ''null'' then Inr JNull else Inl ''Unexpected token k in JSON at position 1''"
        "''{kind:''" "''Unexpected token k in JSON at position 1''" init_adapter]
  by simp

section \<open>Properties of the reconnect timer\<close>

subsection \<open>The handlers keep the timers in order\<close>

lemma same_timers_refl [simp]: "same_timers a a"
  by (simp add: same_timers_def)

lemma same_timers_trans: "same_timers a b \<Longrightarrow> same_timers b c \<Longrightarrow> same_timers a c"
  by (simp add: same_timers_def)

lemma same_timers_inv: "same_timers a b \<Longrightarrow> timer_inv a \<Longrightarrow> timer_inv b"
  by (simp add: same_timers_def timer_inv_def reconnect_timers_def)

lemma same_timers_host [simp]:
  "same_timers a (log_msg l t xs a)"
  "same_timers a (setState sid v k a)"
  "same_timers a (extendObject sid obj a)"
  "same_timers a (subscribeStates pat a)"
  by (simp_all add: same_timers_def log_msg_def setState_def extendObject_def subscribeStates_def)

lemma same_timers_ws_send: "same_timers a (snd (ws_send m a))"
  by (simp add: same_timers_def ws_send_def split: option.splits ready_state.splits)

lemma same_timers_ws_close: "same_timers a (ws_close s a)"
  by (simp add: same_timers_def ws_close_def set_ready_def)

lemma same_timers_set_ready: "same_timers a (set_ready s r a)"
  by (simp add: same_timers_def set_ready_def)

lemma same_timers_connect: "same_timers a (connectWebSocket url token a)"
  by (simp add: same_timers_def connectWebSocket_def ws_close_def set_ready_def Let_def split: option.splits)

lemma same_timers_escape: "same_timers a (snd r) \<Longrightarrow> same_timers a (escape r)"
  by (cases r) (auto simp add: same_timers_def escape_def split: option.splits)

lemma same_timers_create: "same_timers a (snd (createOrUpdateActivity act a))"
  by (simp add: same_timers_def createOrUpdateActivity_def setState_def extendObject_def
      subscribeStates_def Let_def split: sum.splits)

lemma same_timers_create_all: "same_timers a (snd (create_all acts a))"
proof (induction acts arbitrary: a)
  case Nil
  show ?case by simp
next
  case (Cons act acts)
  obtain r a' where r: "createOrUpdateActivity act a = (r, a')"
    by (cases "createOrUpdateActivity act a")
  have st: "same_timers a a'"
    using same_timers_create [of a act] by (simp add: r)
  show ?case
  proof (cases r)
    case None
    then show ?thesis
      using Cons.IH [of a'] st by (simp add: r same_timers_trans)
  next
    case (Some e)
    then show ?thesis using st by (simp add: r)
  qed
qed

lemma same_timers_resp: "same_timers a (snd (handle_resp msg a))"
  by (simp add: handle_resp_def same_timers_create_all split: jsval.splits)

lemma same_timers_event: "same_timers a (snd (handle_event msg a))"
  by (simp add: handle_event_def same_timers_def setState_def log_msg_def Let_def split: sum.splits)

lemma same_timers_handleMessage: "same_timers a (snd (handleMessage msg a))"
proof -
  let ?a1 = "log_msg LSilly ''Empfangene WS-Nachricht: ${JSON.stringify(msg)}'' [msg] a"
  have 1: "same_timers a ?a1" by simp
  show ?thesis
  proof (cases "get_prop msg ''msg''")
    case (Inl e)
    then show ?thesis using 1 by (simp add: handleMessage_def Let_def)
  next
    case (Inr m)
    let ?a2 = "log_msg LDebug ''Empfangene WS-Nachricht: ${msg.msg}'' [m] ?a1"
    have 2: "same_timers a ?a2"
      using 1 by (simp add: same_timers_def log_msg_def)
    obtain r a3 where r: "handle_resp msg ?a2 = (r, a3)"
      by (cases "handle_resp msg ?a2")
    have 3: "same_timers a a3"
      using same_timers_trans [OF 2 same_timers_resp [of ?a2 msg]] by (simp add: r)
    have 4: "same_timers a (snd (handle_event msg a3))"
      using same_timers_trans [OF 3 same_timers_event [of a3 msg]] .
    show ?thesis
      using 2 3 4 by (simp add: handleMessage_def Let_def Inr r split: option.splits)
  qed
qed

lemma same_timers_on_message: "same_timers a (on_message parse data a)"
  by (simp add: on_message_def same_timers_escape same_timers_handleMessage split: sum.splits)

lemma same_timers_subscribe: "same_timers a (snd (subscribeActivities a))"
  unfolding subscribeActivities_def
  by (rule same_timers_trans [OF same_timers_host(1) same_timers_ws_send])

lemma same_timers_request: "same_timers a (snd (requestAllActivities a))"
  unfolding requestAllActivities_def
  by (rule same_timers_trans [OF same_timers_host(1) same_timers_ws_send])

lemma same_timers_on_open: "same_timers a (on_open a)"
proof -
  let ?a3 = "log_msg LInfo ''WebSocket verbunden mit Remote 3.'' []
               (setState ''info.connection'' (JBool True) True (a\<lparr>connected := True\<rparr>))"
  have 3: "same_timers a ?a3"
    by (simp add: same_timers_def log_msg_def setState_def)
  obtain r a4 where r: "subscribeActivities ?a3 = (r, a4)"
    by (cases "subscribeActivities ?a3")
  have 4: "same_timers a a4"
    using same_timers_trans [OF 3 same_timers_subscribe [of ?a3]] by (simp add: r)
  have 5: "same_timers a (escape (requestAllActivities a4))"
    by (rule same_timers_escape) (rule same_timers_trans [OF 4 same_timers_request])
  have 6: "same_timers a (escape (r, a4))"
    by (rule same_timers_escape) (simp add: 4)
  show ?thesis
    using 5 6 by (cases r) (simp_all add: on_open_def Let_def r)
qed

lemma same_timers_on_error: "same_timers a (on_error err a)"
  by (simp add: on_error_def)

lemma timer_inv_filter:
  "timer_inv a \<Longrightarrow> timer_inv (a\<lparr>timers := filter P (timers a)\<rparr>)"
  by (auto simp add: timer_inv_def reconnect_timers_def list_all_iff distinct_map_filter)

lemma timer_inv_clear: "timer_inv a \<Longrightarrow> timer_inv (clear_timeout h a)"
  by (cases h) (simp_all add: clear_timeout_def timer_inv_filter)

lemma timer_inv_set_timeout:
  assumes "timer_inv a"
  shows "timer_inv (snd (set_timeout (ResetButton sid) ms a))"
  using assms
  by (auto simp add: timer_inv_def set_timeout_def reconnect_timers_def list_all_iff)

lemma reconnect_timers_on_close:
  assumes "timer_inv a"
  shows "reconnect_timers (on_close url token a) = [(timer_count a, 5000, Reconnect url token)]"
proof (cases "reconnectTimeout a")
  case None
  then have "filter is_reconnect (timers a) = []"
    using assms by (cases "filter is_reconnect (timers a)") (auto simp add: timer_inv_def reconnect_timers_def)
  then show ?thesis
    using None
    by (simp add: on_close_def reconnect_timers_def set_timeout_def setState_def log_msg_def Let_def)
next
  case (Some t)
  have "\<forall>x\<in>set (timers a). is_reconnect x \<longrightarrow> fst x = t"
    using assms Some by (fastforce simp add: timer_inv_def reconnect_timers_def list_all_iff)
  then have "filter is_reconnect (filter (\<lambda>x. fst x \<noteq> t) (timers a)) = []"
    by (auto simp add: filter_empty_conv)
  then show ?thesis
    using Some
    by (simp add: on_close_def reconnect_timers_def set_timeout_def setState_def log_msg_def
        clear_timeout_def Let_def)
qed

lemma timer_inv_on_close:
  assumes "timer_inv a"
  shows "timer_inv (on_close url token a)"
proof -
  have r: "reconnect_timers (on_close url token a) = [(timer_count a, 5000, Reconnect url token)]"
    using assms by (rule reconnect_timers_on_close)
  have rt: "reconnectTimeout (on_close url token a) = Some (timer_count a)"
    by (simp add: on_close_def set_timeout_def setState_def log_msg_def clear_timeout_def Let_def
        split: option.splits)
  have tc: "timer_count (on_close url token a) = Suc (timer_count a)"
    by (simp add: on_close_def set_timeout_def setState_def log_msg_def clear_timeout_def Let_def
        split: option.splits)
  have tm: "\<exists>P. timers (on_close url token a) = filter P (timers a) @ [(timer_count a, 5000, Reconnect url token)]"
  proof (cases "reconnectTimeout a")
    case None
    have "timers (on_close url token a) = filter (\<lambda>x. True) (timers a) @ [(timer_count a, 5000, Reconnect url token)]"
      using None by (simp add: on_close_def set_timeout_def setState_def log_msg_def Let_def)
    then show ?thesis by blast
  next
    case (Some t)
    have "timers (on_close url token a) = filter (\<lambda>x. fst x \<noteq> t) (timers a) @ [(timer_count a, 5000, Reconnect url token)]"
      using Some by (simp add: on_close_def set_timeout_def setState_def log_msg_def clear_timeout_def Let_def)
    then show ?thesis by blast
  qed
  then obtain P where P: "timers (on_close url token a) = filter P (timers a) @ [(timer_count a, 5000, Reconnect url token)]"
    by blast
  have lt: "\<forall>x\<in>set (timers a). fst x < timer_count a" and d: "distinct (map fst (timers a))"
    using assms by (simp_all add: timer_inv_def list_all_iff)
  show ?thesis
    unfolding timer_inv_def r rt tc P
    using lt d by (auto simp add: list_all_iff distinct_map_filter)
qed

lemma timer_inv_onStateChange: "timer_inv a \<Longrightarrow> timer_inv (onStateChange sid st a)"
proof -
  assume inv: "timer_inv a"
  have 0: "timer_inv (log_msg l t xs a)" for l t xs
    using inv by (rule same_timers_inv [OF same_timers_host(1)])
  have 1: "timer_inv (log_msg l' t' xs' (log_msg l t xs a))" for l t xs l' t' xs'
    using 0 by (rule same_timers_inv [OF same_timers_host(1)])
  have sent: "timer_inv (snd (set_timeout (ResetButton sid) 500
                (case ws_send m b of
                   (None, c) \<Rightarrow> log_msg LInfo t1 xs1 c
                 | (Some e, c) \<Rightarrow> log_msg LError t2 [JStr e] c)))"
    if "timer_inv b" for m b t1 xs1 t2
  proof -
    obtain r c where r: "ws_send m b = (r, c)"
      by (cases "ws_send m b")
    have "same_timers b c"
      using same_timers_ws_send [of b m] by (simp add: r)
    then have "timer_inv c"
      using that by (rule same_timers_inv)
    then have "timer_inv (log_msg l t xs c)" for l t xs
      by (rule same_timers_inv [OF same_timers_host(1)])
    then show ?thesis
      by (cases r) (simp_all add: r timer_inv_set_timeout)
  qed
  show ?thesis
  proof (cases st)
    case None
    then show ?thesis using 0 by (simp add: onStateChange_def Let_def)
  next
    case (Some x)
    show ?thesis
      unfolding onStateChange_def Let_def Some option.case
      by (intro conjI impI sent 1 0 | simp only: if_split)+
  qed
qed

lemma timer_inv_fire: "timer_inv a \<Longrightarrow> timer_inv (fire_timer t a)"
proof -
  assume inv: "timer_inv a"
  have f: "timer_inv (a\<lparr>timers := filter (\<lambda>x. fst x \<noteq> t) (timers a)\<rparr>)"
    using inv by (rule timer_inv_filter)
  have "timer_inv (run_callback cb b)" if "timer_inv b" for cb b
    using that
    by (cases cb) (auto intro: same_timers_inv [OF same_timers_connect] same_timers_inv [OF same_timers_host(2)])
  then show ?thesis
    using inv f by (simp add: fire_timer_def split: option.splits)
qed

lemma timer_inv_onUnload: "timer_inv a \<Longrightarrow> timer_inv (onUnload a)"
proof -
  assume inv: "timer_inv a"
  have 1: "timer_inv (case ws a of None \<Rightarrow> a | Some s \<Rightarrow> ws_close s a)"
    using inv by (auto split: option.splits intro: same_timers_inv [OF same_timers_ws_close])
  have "timer_inv (b\<lparr>unloaded := True\<rparr>)" if "timer_inv b" for b
    using that by (simp add: timer_inv_def reconnect_timers_def)
  then show ?thesis
    using timer_inv_clear [OF 1] by (simp add: onUnload_def Let_def)
qed

lemma timer_inv_step: "timer_inv a \<Longrightarrow> timer_inv (step parse a e)"
proof (cases e)
  case (Start url token)
  assume "timer_inv a"
  then show ?thesis
    unfolding Start step.simps by (auto intro: same_timers_inv [OF same_timers_connect])
next
  case (SocketOpen s)
  assume "timer_inv a"
  then show ?thesis
    unfolding SocketOpen step.simps
    by (auto intro: same_timers_inv [OF same_timers_on_open] same_timers_inv [OF same_timers_set_ready])
next
  case (SocketMessage s d)
  assume "timer_inv a"
  then show ?thesis
    unfolding SocketMessage step.simps
    by (auto intro: same_timers_inv [OF same_timers_on_message])
next
  case (SocketClose s)
  assume "timer_inv a"
  then show ?thesis
    unfolding SocketClose step.simps
    by (auto intro: timer_inv_on_close same_timers_inv [OF same_timers_set_ready])
next
  case (SocketError s err)
  assume "timer_inv a"
  then show ?thesis
    unfolding SocketError step.simps
    by (auto intro: same_timers_inv [OF same_timers_on_error])
next
  case (TimerFire t)
  assume "timer_inv a"
  then show ?thesis
    unfolding TimerFire step.simps by (rule timer_inv_fire)
next
  case (StateChange sid st)
  assume "timer_inv a"
  then show ?thesis
    unfolding StateChange step.simps by (rule timer_inv_onStateChange)
next
  case Unload
  assume "timer_inv a"
  then show ?thesis
    unfolding Unload step.simps by (rule timer_inv_onUnload)
qed

lemma timer_inv_foldl: "timer_inv a \<Longrightarrow> timer_inv (foldl (step parse) a evs)"
  by (induction evs arbitrary: a) (simp_all add: timer_inv_step)

lemma timer_inv_run: "timer_inv (run parse evs)"
  unfolding run_def by (rule timer_inv_foldl) (simp add: timer_inv_def init_adapter_def reconnect_timers_def)

lemma timer_inv_at_most_one:
  assumes "timer_inv a"
  shows "length (reconnect_timers a) \<le> 1"
proof -
  have d: "distinct (map fst (reconnect_timers a))"
    using assms by (simp add: timer_inv_def reconnect_timers_def distinct_map_filter)
  have e: "\<forall>x\<in>set (reconnect_timers a). Some (fst x) = reconnectTimeout a"
    using assms by (auto simp add: timer_inv_def list_all_iff)
  show ?thesis
  proof (cases "reconnect_timers a")
    case Nil
    then show ?thesis by simp
  next
    case (Cons x xs)
    show ?thesis
    proof (cases xs)
      case Nil
      then show ?thesis using Cons by simp
    next
      case (Cons y ys)
      have "fst x = fst y"
        using e \<open>reconnect_timers a = x # xs\<close> Cons by (metis list.set_intros(1,2) option.inject)
      then show ?thesis
        using d \<open>reconnect_timers a = x # xs\<close> Cons by simp
    qed
  qed
qed

subsection \<open>Handlers in any order\<close>

lemma timer_inv_invoke: "timer_inv a \<Longrightarrow> timer_inv (invoke parse a c)"
proof (cases c)
  case (CallConnect url token)
  assume "timer_inv a"
  then show ?thesis
    unfolding CallConnect invoke.simps by (rule same_timers_inv [OF same_timers_connect])
next
  case CallOpen
  assume "timer_inv a"
  then show ?thesis
    unfolding CallOpen invoke.simps by (rule same_timers_inv [OF same_timers_on_open])
next
  case (CallMessage d)
  assume "timer_inv a"
  then show ?thesis
    unfolding CallMessage invoke.simps by (rule same_timers_inv [OF same_timers_on_message])
next
  case (CallClose url token)
  assume "timer_inv a"
  then show ?thesis
    unfolding CallClose invoke.simps by (rule timer_inv_on_close)
next
  case (CallError err)
  assume "timer_inv a"
  then show ?thesis
    unfolding CallError invoke.simps by (rule same_timers_inv [OF same_timers_on_error])
next
  case (CallTimer t)
  assume "timer_inv a"
  then show ?thesis
    unfolding CallTimer invoke.simps by (rule timer_inv_fire)
next
  case (CallStateChange sid st)
  assume "timer_inv a"
  then show ?thesis
    unfolding CallStateChange invoke.simps by (rule timer_inv_onStateChange)
next
  case CallUnload
  assume "timer_inv a"
  then show ?thesis
    unfolding CallUnload invoke.simps by (rule timer_inv_onUnload)
next
  case (CallSetReady s r)
  assume "timer_inv a"
  then show ?thesis
    unfolding CallSetReady invoke.simps by (rule same_timers_inv [OF same_timers_set_ready])
qed

lemma timer_inv_invoke_foldl: "timer_inv a \<Longrightarrow> timer_inv (foldl (invoke parse) a cs)"
  by (induction cs arbitrary: a) (simp_all add: timer_inv_invoke)

lemma timer_inv_run_calls: "timer_inv (run_calls parse cs)"
  unfolding run_calls_def
  by (rule timer_inv_invoke_foldl) (simp add: timer_inv_def init_adapter_def reconnect_timers_def)

text \<open>An event is a sequence of calls, and so is a sequence of events.\<close>

lemma step_calls: "\<exists>cs. step parse a e = foldl (invoke parse) a cs"
proof (cases e)
  case (Start url token)
  have "step parse a e = foldl (invoke parse) a (if ws a = None then [CallConnect url token] else [])"
    by (simp add: Start)
  then show ?thesis by blast
next
  case (SocketOpen s)
  have "step parse a e =
      foldl (invoke parse) a (if ready_of a s = Some CONNECTING then [CallSetReady s OPEN, CallOpen] else [])"
    by (simp add: SocketOpen)
  then show ?thesis by blast
next
  case (SocketMessage s d)
  have "step parse a e = foldl (invoke parse) a (if ready_of a s = Some OPEN then [CallMessage d] else [])"
    by (simp add: SocketMessage)
  then show ?thesis by blast
next
  case (SocketClose s)
  have "step parse a e =
      foldl (invoke parse) a
        (if ready_of a s = None \<or> ready_of a s = Some CLOSED then []
         else [CallSetReady s CLOSED, CallClose (sock_url (sockets a ! s)) (sock_token (sockets a ! s))])"
    by (simp add: SocketClose)
  then show ?thesis by blast
next
  case (SocketError s err)
  have "step parse a e = foldl (invoke parse) a (if s < length (sockets a) then [CallError err] else [])"
    by (simp add: SocketError)
  then show ?thesis by blast
next
  case (TimerFire t)
  have "step parse a e = foldl (invoke parse) a [CallTimer t]"
    by (simp add: TimerFire)
  then show ?thesis by blast
next
  case (StateChange sid st)
  have "step parse a e = foldl (invoke parse) a [CallStateChange sid st]"
    by (simp add: StateChange)
  then show ?thesis by blast
next
  case Unload
  have "step parse a e = foldl (invoke parse) a [CallUnload]"
    by (simp add: Unload)
  then show ?thesis by blast
qed

lemma run_calls_of_run: "\<exists>cs. run parse evs = run_calls parse cs"
proof (induction evs rule: rev_induct)
  case Nil
  have "run parse [] = run_calls parse []"
    by (simp add: run_def run_calls_def)
  then show ?case by blast
next
  case (snoc e evs)
  then obtain cs where cs: "run parse evs = run_calls parse cs"
    by blast
  obtain cs' where cs': "step parse (run parse evs) e = foldl (invoke parse) (run parse evs) cs'"
    using step_calls by blast
  have "run parse (evs @ [e]) = run_calls parse (cs @ cs')"
    using cs' by (simp add: run_def run_calls_def cs [unfolded run_def run_calls_def])
  then show ?case by blast
qed

lemma on_close_result:
  "reconnectTimeout (on_close url token a) = Some (timer_count a)"
  "\<not> connected (on_close url token a)"
  "states (on_close url token a) = (states a)(''info.connection'' \<mapsto> (JBool False, True))"
  "logs (on_close url token a) = logs a @ [(LWarn, ''WebSocket getrennt. Reconnect in 5s ...'', [])]"
  by (simp_all add: on_close_def set_timeout_def setState_def log_msg_def clear_timeout_def
      Let_def split: option.splits)

subsection \<open>One reconnect timer at most\<close>

text \<open>
  C5. Let the handlers be called in any order and the sockets change their state in any
  way, from the constructor's state on; every sequence of events is such a sequence. Then at
  most one reconnect timer is pending. When the \<^verbatim>\<open>close\<close> handler runs next, it clears the
  connected flag, writes \<^verbatim>\<open>info.connection = false\<close> with acknowledgment and nothing else,
  logs a warning, and leaves exactly one pending reconnect timer: one that was not pending
  before, 5000 ms, calling \<^verbatim>\<open>connectWebSocket\<close> with the handler's url and token, whose handle
  \<^verbatim>\<open>this.reconnectTimeout\<close> now holds. So a reconnect timer pending before is gone. The
  \<^verbatim>\<open>close\<close> event of a socket (one that exists and has not closed before) is that handler,
  with the socket's own url and token, run after the socket has become closed; so all of
  this holds of it, and of every state that a sequence of events leads to.
\<close>

theorem close_cancels_then_schedules_one:
  assumes "a = run_calls parse cs" and "b = on_close url token a"
    and "e = run parse evs" and "e' = step parse e (SocketClose s)"
  shows "length (reconnect_timers a) \<le> 1
       \<and> reconnect_timers b = [(timer_count a, 5000, Reconnect url token)]
       \<and> (timer_count a, 5000, Reconnect url token) \<notin> set (timers a)
       \<and> reconnectTimeout b = Some (timer_count a)
       \<and> \<not> connected b
       \<and> states b = (states a)(''info.connection'' \<mapsto> (JBool False, True))
       \<and> logs b = logs a @ [(LWarn, ''WebSocket getrennt. Reconnect in 5s ...'', [])]
       \<and> (\<exists>cs'. e = run_calls parse cs')
       \<and> length (reconnect_timers e) \<le> 1
       \<and> (ready_of e s = Some r \<and> r \<noteq> CLOSED
          \<longrightarrow> (\<exists>cs'. set_ready s CLOSED e = run_calls parse cs')
            \<and> e' = on_close (sock_url (sockets e ! s)) (sock_token (sockets e ! s)) (set_ready s CLOSED e)
            \<and> reconnect_timers e' =
                [(timer_count e, 5000, Reconnect (sock_url (sockets e ! s)) (sock_token (sockets e ! s)))]
            \<and> reconnectTimeout e' = Some (timer_count e)
            \<and> \<not> connected e'
            \<and> states e' = (states e)(''info.connection'' \<mapsto> (JBool False, True))
            \<and> logs e' = logs e @ [(LWarn, ''WebSocket getrennt. Reconnect in 5s ...'', [])])"
proof -
  have inv: "timer_inv a"
    unfolding assms(1) by (rule timer_inv_run_calls)
  have 1: "length (reconnect_timers a) \<le> 1"
    using inv by (rule timer_inv_at_most_one)
  have 2: "reconnect_timers b = [(timer_count a, 5000, Reconnect url token)]"
    unfolding assms(2) using inv by (rule reconnect_timers_on_close)
  have "\<forall>x\<in>set (timers a). fst x < timer_count a"
    using inv by (simp add: timer_inv_def list_all_iff)
  then have 3: "(timer_count a, 5000, Reconnect url token) \<notin> set (timers a)"
    by fastforce
  obtain cs' where cs': "e = run_calls parse cs'"
    unfolding assms(3) using run_calls_of_run by blast
  then have 8: "\<exists>cs'. e = run_calls parse cs'"
    by blast
  have "set_ready s CLOSED e = run_calls parse (cs' @ [CallSetReady s CLOSED])"
    by (simp add: cs' run_calls_def)
  then have 9: "\<exists>cs'. set_ready s CLOSED e = run_calls parse cs'"
    by blast
  have 10: "e' = on_close (sock_url (sockets e ! s)) (sock_token (sockets e ! s)) (set_ready s CLOSED e)"
    if "ready_of e s = Some r" "r \<noteq> CLOSED"
    unfolding assms(4) using that by simp
  have inve: "timer_inv e"
    unfolding assms(3) by (rule timer_inv_run)
  have 11: "length (reconnect_timers e) \<le> 1"
    using inve by (rule timer_inv_at_most_one)
  have invc: "timer_inv (set_ready s CLOSED e)"
    using inve by (rule same_timers_inv [OF same_timers_set_ready])
  have sr: "timer_count (set_ready s CLOSED e) = timer_count e" "states (set_ready s CLOSED e) = states e"
      "logs (set_ready s CLOSED e) = logs e"
    by (simp_all add: set_ready_def)
  have 12: "reconnect_timers (on_close u t (set_ready s CLOSED e)) = [(timer_count e, 5000, Reconnect u t)]" for u t
    using reconnect_timers_on_close [OF invc, of u t] by (simp add: sr)
  have 13: "reconnectTimeout (on_close u t (set_ready s CLOSED e)) = Some (timer_count e)
      \<and> \<not> connected (on_close u t (set_ready s CLOSED e))
      \<and> states (on_close u t (set_ready s CLOSED e)) = (states e)(''info.connection'' \<mapsto> (JBool False, True))
      \<and> logs (on_close u t (set_ready s CLOSED e)) =
          logs e @ [(LWarn, ''WebSocket getrennt. Reconnect in 5s ...'', [])]" for u t
    by (simp add: on_close_result sr)
  have A: "length (reconnect_timers a) \<le> 1
       \<and> reconnect_timers b = [(timer_count a, 5000, Reconnect url token)]
       \<and> (timer_count a, 5000, Reconnect url token) \<notin> set (timers a)
       \<and> reconnectTimeout b = Some (timer_count a)
       \<and> \<not> connected b
       \<and> states b = (states a)(''info.connection'' \<mapsto> (JBool False, True))
       \<and> logs b = logs a @ [(LWarn, ''WebSocket getrennt. Reconnect in 5s ...'', [])]"
    using 1 2 3 by (simp add: assms(2) on_close_result)
  have B: "ready_of e s = Some r \<and> r \<noteq> CLOSED
          \<longrightarrow> (\<exists>cs'. set_ready s CLOSED e = run_calls parse cs')
            \<and> e' = on_close (sock_url (sockets e ! s)) (sock_token (sockets e ! s)) (set_ready s CLOSED e)
            \<and> reconnect_timers e' =
                [(timer_count e, 5000, Reconnect (sock_url (sockets e ! s)) (sock_token (sockets e ! s)))]
            \<and> reconnectTimeout e' = Some (timer_count e)
            \<and> \<not> connected e'
            \<and> states e' = (states e)(''info.connection'' \<mapsto> (JBool False, True))
            \<and> logs e' = logs e @ [(LWarn, ''WebSocket getrennt. Reconnect in 5s ...'', [])]"
  proof (intro impI, elim conjE)
    assume h: "ready_of e s = Some r" "r \<noteq> CLOSED"
    note x = 10 [OF h]
    show "(\<exists>cs'. set_ready s CLOSED e = run_calls parse cs')
            \<and> e' = on_close (sock_url (sockets e ! s)) (sock_token (sockets e ! s)) (set_ready s CLOSED e)
            \<and> reconnect_timers e' =
                [(timer_count e, 5000, Reconnect (sock_url (sockets e ! s)) (sock_token (sockets e ! s)))]
            \<and> reconnectTimeout e' = Some (timer_count e)
            \<and> \<not> connected e'
            \<and> states e' = (states e)(''info.connection'' \<mapsto> (JBool False, True))
            \<and> logs e' = logs e @ [(LWarn, ''WebSocket getrennt. Reconnect in 5s ...'', [])]"
      using 9 12 13 unfolding x by blast
  qed
  show ?thesis
    using A 8 11 B by blast
qed

theorem close_cancels_then_schedules_one_witness:
  "reconnect_timers (run_calls (\<lambda>d. Inl []) [CallConnect ''ws://remote:80/ws'' ''key'', CallClose ''ws://remote:80/ws'' ''key''])
     = [(0, 5000, Reconnect ''ws://remote:80/ws'' ''key'')]
   \<and> reconnect_timers (on_close ''ws://remote:80/ws'' ''key''
        (run_calls (\<lambda>d. Inl []) [CallConnect ''ws://remote:80/ws'' ''key'', CallClose ''ws://remote:80/ws'' ''key'']))
     = [(1, 5000, Reconnect ''ws://remote:80/ws'' ''key'')]
   \<and> \<not> connected (on_close ''ws://remote:80/ws'' ''key''
        (run_calls (\<lambda>d. Inl []) [CallConnect ''ws://remote:80/ws'' ''key'', CallClose ''ws://remote:80/ws'' ''key'']))
   \<and> ready_of (run (\<lambda>d. Inl []) [Start ''ws://remote:80/ws'' ''key'', SocketOpen 0]) 0 = Some OPEN
   \<and> OPEN \<noteq> CLOSED
   \<and> step (\<lambda>d. Inl []) (run (\<lambda>d. Inl []) [Start ''ws://remote:80/ws'' ''key'', SocketOpen 0]) (SocketClose 0)
     = on_close ''ws://remote:80/ws'' ''key''
         (set_ready 0 CLOSED (run (\<lambda>d. Inl []) [Start ''ws://remote:80/ws'' ''key'', SocketOpen 0]))
   \<and> reconnect_timers
        (step (\<lambda>d. Inl []) (run (\<lambda>d. Inl []) [Start ''ws://remote:80/ws'' ''key'', SocketOpen 0]) (SocketClose 0))
     = [(0, 5000, Reconnect ''ws://remote:80/ws'' ''key'')]
   \<and> \<not> connected
        (step (\<lambda>d. Inl []) (run (\<lambda>d. Inl []) [Start ''ws://remote:80/ws'' ''key'', SocketOpen 0]) (SocketClose 0))"
proof -
  let ?p = "\<lambda>d :: string. Inl [] :: exn + jsval"
  let ?u = "''ws://remote:80/ws''"
  let ?a = "run_calls ?p [CallConnect ?u ''key'', CallClose ?u ''key'']"
  let ?e = "run ?p [Start ?u ''key'', SocketOpen 0]"
  have s: "sockets ?e ! 0 =
             \<lparr>sock_url = ?u, sock_token = ''key'', sock_headers = [(''API-KEY'', ''key'')], ready = OPEN\<rparr>"
    by (simp add: run_def init_adapter_def connectWebSocket_def ready_of_def set_ready_def
      on_open_def setState_def log_msg_def subscribeActivities_def requestAllActivities_def
      ws_send_def escape_def Let_def)
  have r: "ready_of ?e 0 = Some OPEN" "OPEN \<noteq> CLOSED"
    by (simp_all add: connected_state)
  have p: "reconnect_timers ?a = [(0, 5000, Reconnect ?u ''key'')]" "timer_count ?a = 1"
    by (simp_all add: run_calls_def init_adapter_def connectWebSocket_def on_close_def set_timeout_def
        setState_def log_msg_def clear_timeout_def reconnect_timers_def Let_def)
  note t = close_cancels_then_schedules_one [OF refl refl refl refl, where parse = ?p
      and cs = "[CallConnect ?u ''key'', CallClose ?u ''key'']" and url = ?u and token = "''key''"
      and evs = "[Start ?u ''key'', SocketOpen 0]" and s = 0 and r = OPEN]
  note 2 = t [THEN conjunct2, THEN conjunct1]
  note 5 = t [THEN conjunct2, THEN conjunct2, THEN conjunct2, THEN conjunct2, THEN conjunct1]
  note 9 = t [THEN conjunct2, THEN conjunct2, THEN conjunct2, THEN conjunct2, THEN conjunct2, THEN conjunct2,
              THEN conjunct2, THEN conjunct2, THEN conjunct2, THEN mp, OF conjI [OF r], THEN conjunct2,
              THEN conjunct1]
  have c2: "reconnect_timers (on_close ?u ''key'' ?a) = [(1, 5000, Reconnect ?u ''key'')]"
    unfolding 2 p by simp
  have c9: "step ?p ?e (SocketClose 0) = on_close ?u ''key'' (set_ready 0 CLOSED ?e)"
    unfolding 9 s by simp
  note ev = t [THEN conjunct2, THEN conjunct2, THEN conjunct2, THEN conjunct2, THEN conjunct2, THEN conjunct2,
               THEN conjunct2, THEN conjunct2, THEN conjunct2, THEN mp, OF conjI [OF r], THEN conjunct2,
               THEN conjunct2]
  have tc: "timer_count ?e = 0"
    by (simp add: run_def init_adapter_def connectWebSocket_def ready_of_def set_ready_def
      on_open_def setState_def log_msg_def subscribeActivities_def requestAllActivities_def
      ws_send_def escape_def Let_def)
  have c10: "reconnect_timers (step ?p ?e (SocketClose 0)) = [(0, 5000, Reconnect ?u ''key'')]"
    unfolding ev [THEN conjunct1] s tc by simp
  note c11 = ev [THEN conjunct2, THEN conjunct2, THEN conjunct1]
  show ?thesis
    by (intro conjI) (fact p(1) c2 5 r c9 c10 c11)+
qed

subsection \<open>After teardown\<close>

text \<open>
  C2, on the code. \<^verbatim>\<open>onUnload\<close> tells the open socket to close and clears the reconnect
  timer, and no reconnect timer is pending then. The socket's \<^verbatim>\<open>close\<close> event, which that
  very call brings about, runs the same handler as any other close: it schedules a
  reconnect after 5000 ms, and when that timer fires a second socket is connecting.
\<close>

theorem unload_then_close_reconnects:
  "unloaded (run parse [Start url token, SocketOpen 0, Unload])
   \<and> reconnect_timers (run parse [Start url token, SocketOpen 0, Unload]) = []
   \<and> ready_of (run parse [Start url token, SocketOpen 0, Unload]) 0 = Some CLOSING
   \<and> reconnect_timers (run parse [Start url token, SocketOpen 0, Unload, SocketClose 0]) =
       [(0, 5000, Reconnect url token)]
   \<and> ws (run parse [Start url token, SocketOpen 0, Unload, SocketClose 0, TimerFire 0]) = Some 1
   \<and> ready_of (run parse [Start url token, SocketOpen 0, Unload, SocketClose 0, TimerFire 0]) 1 = Some CONNECTING"
  by (simp add: run_def init_adapter_def connectWebSocket_def ready_of_def set_ready_def
      on_open_def setState_def log_msg_def subscribeActivities_def requestAllActivities_def
      ws_send_def escape_def onUnload_def ws_close_def clear_timeout_def on_close_def set_timeout_def
      reconnect_timers_def fire_timer_def Let_def)

section \<open>Properties of the connection before teardown\<close>

lemma same_conn_refl [simp]: "same_conn a a"
  by (simp add: same_conn_def)


























section \<open>Properties of the entity reconciler\<close>

subsection \<open>What the handlers compute on well-formed records\<close>

lemma field_defined_obj: "field v k \<noteq> JUndefined \<Longrightarrow> truthy v \<and> \<not> nullish v"
  by (cases v) simp_all

lemma template_third:
  "template (js_index segs 2) = (if 2 < length segs then segs ! 2 else ''undefined'')"
  by (simp add: template_def js_index_def)

lemma seg_val_third:
  "seg_val (js_index segs 2) = (if 2 < length segs then JStr (segs ! 2) else JUndefined)"
  by (simp add: seg_val_def js_index_def)

lemma handleMessage_activity_change:
  assumes "field msg ''kind'' = JStr ''event''" and "is_activity_change msg"
  shows "handleMessage msg a =
           handle_event msg
             (log_msg LDebug ''Empfangene WS-Nachricht: ${msg.msg}'' [field msg ''msg'']
                (log_msg LSilly ''Empfangene WS-Nachricht: ${JSON.stringify(msg)}'' [msg] a))"
proof -
  have m: "truthy msg" "\<not> nullish msg"
    using field_defined_obj [of msg "''kind''"] assms(1) by simp_all
  have t: "field msg ''msg'' = JStr ''entity_change''" "truthy (field msg ''msg_data'')"
    using assms(2) by (simp_all add: is_activity_change_def)
  show ?thesis
    using m t assms(1)
    by (simp add: handleMessage_def get_prop_def handle_resp_def Let_def)
qed

lemma activity_change_result:
  assumes "field msg ''kind'' = JStr ''event''" and "is_activity_change msg"
    and "field (field msg ''msg_data'') ''entity_id'' = JStr eid"
    and "\<not> nullish (field (field (field msg ''msg_data'') ''new_state'') ''attributes'')"
    and "field (field (field (field msg ''msg_data'') ''new_state'') ''attributes'') ''state'' = nstate"
    and "path = ''activities.'' @ template (js_index (split_dot eid) 2) @ ''.is_active''"
  shows "fst (handleMessage msg a) = None
       \<and> states (snd (handleMessage msg a)) =
           (if nstate = JStr ''ON'' then (states a)(path \<mapsto> (JBool True, True))
            else if nstate = JStr ''OFF'' then (states a)(path \<mapsto> (JBool False, True))
            else states a)
       \<and> objects (snd (handleMessage msg a)) = objects a
       \<and> outbox (snd (handleMessage msg a)) = outbox a"
proof -
  have h: "handleMessage msg a =
           handle_event msg
             (log_msg LDebug ''Empfangene WS-Nachricht: ${msg.msg}'' [field msg ''msg'']
                (log_msg LSilly ''Empfangene WS-Nachricht: ${JSON.stringify(msg)}'' [msg] a))"
    using assms(1,2) by (rule handleMessage_activity_change)
  show ?thesis
    unfolding h using assms
    by (simp add: handle_event_def get_prop_def setState_def log_msg_def Let_def)
qed

text \<open>
  \<^verbatim>\<open>createOrUpdateActivity\<close> on a record with a string as \<^verbatim>\<open>entity_id\<close> and a name to read:
  the first two objects are extended in any case; the rest follows when the state can be
  read and compared.
\<close>

lemma create_result:
  assumes "field act ''entity_id'' = JStr eid" and "\<not> nullish (field act ''name'')"
    and "key = ''activities.'' @ template (js_index (split_dot eid) 2)"
    and "name = js_or (js_or (field (field act ''name'') ''de_DE'') (field (field act ''name'') ''en_US''))
                  (seg_val (js_index (split_dot eid) 2))"
    and "a2 = extendObject (key @ ''.is_active'') is_active_obj (extendObject key (channel_obj name) a)"
    and "st = field (field act ''attributes'') ''state''"
  shows "snd (createOrUpdateActivity act a) =
     (if nullish (field act ''attributes'') \<or> conversion_throws st then a2
      else extendObject (key @ ''.start'') start_obj
             (subscribeStates (key @ ''.start'')
                (setState (key @ ''.is_active'') (JBool (\<not> converts_to_OFF st)) True a2)))"
    and "fst (createOrUpdateActivity act a) = None
           \<longleftrightarrow> \<not> nullish (field act ''attributes'') \<and> \<not> conversion_throws st"
proof -
  have m: "\<not> nullish act"
    using field_defined_obj [of act "''entity_id''"] assms(1) by simp
  show "snd (createOrUpdateActivity act a) =
     (if nullish (field act ''attributes'') \<or> conversion_throws st then a2
      else extendObject (key @ ''.start'') start_obj
             (subscribeStates (key @ ''.start'')
                (setState (key @ ''.is_active'') (JBool (\<not> converts_to_OFF st)) True a2)))"
    using m assms(1,2)
    by (simp add: createOrUpdateActivity_def get_prop_def loose_neq_OFF_def Let_def assms(3-6))
  show "fst (createOrUpdateActivity act a) = None
           \<longleftrightarrow> \<not> nullish (field act ''attributes'') \<and> \<not> conversion_throws st"
    using m assms(1,2)
    by (simp add: createOrUpdateActivity_def get_prop_def loose_neq_OFF_def Let_def assms(3-6))
qed

lemma create_nothing:
  assumes "(\<forall>e. field act ''entity_id'' \<noteq> JStr e) \<or> nullish (field act ''name'')"
  shows "snd (createOrUpdateActivity act a) = a"
proof (cases "nullish act")
  case True
  then show ?thesis by (simp add: createOrUpdateActivity_def get_prop_def)
next
  case False
  show ?thesis
  proof (cases "field act ''entity_id''")
    case (JStr e)
    then have "nullish (field act ''name'')"
      using assms by simp
    then show ?thesis
      using False JStr by (simp add: createOrUpdateActivity_def get_prop_def)
  qed (use False in \<open>simp_all add: createOrUpdateActivity_def get_prop_def\<close>)
qed

lemma dom_objects_extend [simp]: "dom (objects (extendObject k obj h)) = insert k (dom (objects h))"
  by (simp add: extendObject_def)

lemma host_frame [simp]:
  "objects (setState k v b h) = objects h"
  "objects (subscribeStates p h) = objects h"
  "objects (log_msg l t xs h) = objects h"
  "states (extendObject k obj h) = states h"
  "states (subscribeStates p h) = states h"
  "states (log_msg l t xs h) = states h"
  "states (setState k v b h) = (states h)(k \<mapsto> (v, b))"
  "subscriptions (extendObject k obj h) = subscriptions h"
  "subscriptions (setState k v b h) = subscriptions h"
  "subscriptions (log_msg l t xs h) = subscriptions h"
  "subscriptions (subscribeStates p h) = insert p (subscriptions h)"
  by (simp_all add: setState_def subscribeStates_def log_msg_def extendObject_def)

lemma converts_to_OFF_plain: "\<not> is_array v \<Longrightarrow> converts_to_OFF v = (v = JStr ''OFF'')"
  by (cases v) auto

lemma map_add_twice: "m ++ n ++ n = m ++ n"
  by (rule ext) (simp add: map_add_def split: option.splits)

lemma map_add_self: "n ++ n = n"
  by (rule ext) (simp add: map_add_def split: option.splits)

lemma merge_obj_idem: "merge_obj (merge_obj old new) new = merge_obj old new"
  by (simp add: merge_obj_def map_add_twice)

lemma merge_obj_self: "merge_obj new new = new"
  by (cases new) (simp add: merge_obj_def map_add_self)

lemma extendObject_idem: "extendObject k obj (extendObject k obj h) = extendObject k obj h"
  by (simp add: extendObject_def merge_obj_idem merge_obj_self split: option.splits)

lemma extendObject_commute:
  "k \<noteq> k' \<Longrightarrow> extendObject k obj (extendObject k' obj' h) = extendObject k' obj' (extendObject k obj h)"
  by (simp add: extendObject_def fun_upd_twist)

lemma extendObject_setState:
  "extendObject k obj (setState k' v b h) = setState k' v b (extendObject k obj h)"
  by (simp add: extendObject_def setState_def)

lemma extendObject_subscribe:
  "extendObject k obj (subscribeStates p h) = subscribeStates p (extendObject k obj h)"
  by (simp add: extendObject_def subscribeStates_def)

lemma setState_subscribe:
  "setState k v b (subscribeStates p h) = subscribeStates p (setState k v b h)"
  by (simp add: setState_def subscribeStates_def)

lemma setState_idem: "setState k v b (setState k v b h) = setState k v b h"
  by (simp add: setState_def)

lemma subscribe_idem: "subscribeStates p (subscribeStates p h) = subscribeStates p h"
  by (simp add: subscribeStates_def)

lemma reconcile_twice:
  assumes "k1 \<noteq> k2" and "k1 \<noteq> k3" and "k2 \<noteq> k3"
  shows "extendObject k3 o3 (subscribeStates p (setState k v b (extendObject k2 o2 (extendObject k1 o1
           (extendObject k3 o3 (subscribeStates p (setState k v b (extendObject k2 o2 (extendObject k1 o1 h)))))))))
         = extendObject k3 o3 (subscribeStates p (setState k v b (extendObject k2 o2 (extendObject k1 o1 h))))"
proof -
  have "extendObject k3 o3 (subscribeStates p (setState k v b (extendObject k2 o2 (extendObject k1 o1
           (extendObject k3 o3 (subscribeStates p (setState k v b (extendObject k2 o2 (extendObject k1 o1 h)))))))))
      = subscribeStates p (subscribeStates p (setState k v b (setState k v b
          (extendObject k3 o3 (extendObject k3 o3 (extendObject k2 o2 (extendObject k2 o2
             (extendObject k1 o1 (extendObject k1 o1 h)))))))))"
    using assms
    by (simp add: extendObject_def setState_def subscribeStates_def fun_upd_twist)
  also have "\<dots> = subscribeStates p (setState k v b (extendObject k3 o3 (extendObject k2 o2 (extendObject k1 o1 h))))"
    by (simp only: extendObject_idem setState_idem subscribe_idem)
  also have "\<dots> = extendObject k3 o3 (subscribeStates p (setState k v b (extendObject k2 o2 (extendObject k1 o1 h))))"
    by (simp add: extendObject_def setState_def subscribeStates_def)
  finally show ?thesis .
qed

lemma objects_extend_same:
  "objects (extendObject k obj h) k = Some (case objects h k of None \<Rightarrow> obj | Some old \<Rightarrow> merge_obj old obj)"
  by (simp add: extendObject_def)

lemma objects_extend_other: "k' \<noteq> k \<Longrightarrow> objects (extendObject k obj h) k' = objects h k'"
  by (simp add: extendObject_def)

subsection \<open>The local key\<close>

text \<open>
  C1, as the code has it. Both \<^verbatim>\<open>createOrUpdateActivity\<close> and the event branch of
  \<^verbatim>\<open>handleMessage\<close> take \<^verbatim>\<open>entity_id.split(".")[2]\<close>: the local key is the third segment of
  the \<^verbatim>\<open>entity_id\<close>, and the text \<^verbatim>\<open>undefined\<close> when there are fewer than three. A record
  without a string as \<^verbatim>\<open>entity_id\<close> or without a name to read changes nothing. For every
  other record the objects touched are \<^verbatim>\<open>activities.<key>\<close> and
  \<^verbatim>\<open>activities.<key>.is_active\<close> and, unless reading or comparing the state throws,
  \<^verbatim>\<open>activities.<key>.start\<close>, with the state \<^verbatim>\<open>activities.<key>.is_active\<close> and the
  subscription to \<^verbatim>\<open>activities.<key>.start\<close>. An event that sets \<^verbatim>\<open>ON\<close> or \<^verbatim>\<open>OFF\<close> writes
  \<^verbatim>\<open>activities.<key>.is_active\<close>. The key is the last segment when the \<^verbatim>\<open>entity_id\<close> has
  exactly three, as in \<^verbatim>\<open>uc.main.<key>\<close>.
\<close>

theorem local_key_is_third_segment:
  assumes "split_dot eid = segs"
    and "key = (if 2 < length segs then segs ! 2 else ''undefined'')"
    and "a' = snd (createOrUpdateActivity act a)"
  shows "((\<forall>e. field act ''entity_id'' \<noteq> JStr e) \<or> nullish (field act ''name'') \<longrightarrow> a' = a)
       \<and> (field act ''entity_id'' = JStr eid \<and> \<not> nullish (field act ''name'')
            \<and> fst (createOrUpdateActivity act a) = None
          \<longrightarrow> dom (objects a') =
                dom (objects a) \<union> {''activities.'' @ key, ''activities.'' @ key @ ''.is_active'',
                                    ''activities.'' @ key @ ''.start''}
            \<and> dom (states a') = insert (''activities.'' @ key @ ''.is_active'') (dom (states a))
            \<and> subscriptions a' = insert (''activities.'' @ key @ ''.start'') (subscriptions a))
       \<and> (field act ''entity_id'' = JStr eid \<and> \<not> nullish (field act ''name'')
            \<and> fst (createOrUpdateActivity act a) \<noteq> None
          \<longrightarrow> dom (objects a') =
                dom (objects a) \<union> {''activities.'' @ key, ''activities.'' @ key @ ''.is_active''}
            \<and> states a' = states a
            \<and> subscriptions a' = subscriptions a)
       \<and> (field msg ''kind'' = JStr ''event'' \<and> is_activity_change msg
            \<and> field (field msg ''msg_data'') ''entity_id'' = JStr eid
            \<and> field (field (field (field msg ''msg_data'') ''new_state'') ''attributes'') ''state'' = JStr st
            \<and> (st = ''ON'' \<or> st = ''OFF'')
          \<longrightarrow> states (snd (handleMessage msg a)) =
                (states a)(''activities.'' @ key @ ''.is_active'' \<mapsto> (JBool (st = ''ON''), True)))
       \<and> (length segs = 3 \<longrightarrow> key = last segs)"
proof (intro conjI impI)
  have k: "template (js_index (split_dot eid) 2) = key"
    using assms(1,2) by (simp add: template_third)
  {
    assume "(\<forall>e. field act ''entity_id'' \<noteq> JStr e) \<or> nullish (field act ''name'')"
    then show "a' = a"
      unfolding assms(3) by (rule create_nothing)
  }
  {
    assume h: "field act ''entity_id'' = JStr eid \<and> \<not> nullish (field act ''name'')
            \<and> fst (createOrUpdateActivity act a) = None"
    have ok: "\<not> (nullish (field act ''attributes'')
                \<or> conversion_throws (field (field act ''attributes'') ''state''))"
      using create_result(2) [OF _ _ refl refl refl refl, of act eid a] h by simp
    have c: "a' =
      extendObject (''activities.'' @ key @ ''.start'') start_obj
        (subscribeStates (''activities.'' @ key @ ''.start'')
          (setState (''activities.'' @ key @ ''.is_active'')
             (JBool (\<not> converts_to_OFF (field (field act ''attributes'') ''state''))) True
            (extendObject (''activities.'' @ key @ ''.is_active'') is_active_obj
              (extendObject (''activities.'' @ key)
                 (channel_obj (js_or (js_or (field (field act ''name'') ''de_DE'')
                                           (field (field act ''name'') ''en_US''))
                                     (seg_val (js_index (split_dot eid) 2)))) a))))"
      unfolding assms(3)
      using create_result(1) [OF _ _ refl refl refl refl, of act eid a] h ok
      by (simp add: k)
    show "dom (objects a') =
                dom (objects a) \<union> {''activities.'' @ key, ''activities.'' @ key @ ''.is_active'',
                                    ''activities.'' @ key @ ''.start''}"
      unfolding c by auto
    show "dom (states a') = insert (''activities.'' @ key @ ''.is_active'') (dom (states a))"
      unfolding c by simp
    show "subscriptions a' = insert (''activities.'' @ key @ ''.start'') (subscriptions a)"
      unfolding c by simp
  }
  {
    assume h: "field act ''entity_id'' = JStr eid \<and> \<not> nullish (field act ''name'')
            \<and> fst (createOrUpdateActivity act a) \<noteq> None"
    have bad: "nullish (field act ''attributes'')
                \<or> conversion_throws (field (field act ''attributes'') ''state'')"
      using create_result(2) [OF _ _ refl refl refl refl, of act eid a] h by simp
    have c: "a' =
            extendObject (''activities.'' @ key @ ''.is_active'') is_active_obj
              (extendObject (''activities.'' @ key)
                 (channel_obj (js_or (js_or (field (field act ''name'') ''de_DE'')
                                           (field (field act ''name'') ''en_US''))
                                     (seg_val (js_index (split_dot eid) 2)))) a)"
      unfolding assms(3)
      using create_result(1) [OF _ _ refl refl refl refl, of act eid a] h bad
      by (simp add: k)
    show "dom (objects a') =
                dom (objects a) \<union> {''activities.'' @ key, ''activities.'' @ key @ ''.is_active''}"
      unfolding c by auto
    show "states a' = states a"
      unfolding c by simp
    show "subscriptions a' = subscriptions a"
      unfolding c by simp
  }
  {
    assume h: "field msg ''kind'' = JStr ''event'' \<and> is_activity_change msg
            \<and> field (field msg ''msg_data'') ''entity_id'' = JStr eid
            \<and> field (field (field (field msg ''msg_data'') ''new_state'') ''attributes'') ''state'' = JStr st
            \<and> (st = ''ON'' \<or> st = ''OFF'')"
    have n: "\<not> nullish (field (field (field msg ''msg_data'') ''new_state'') ''attributes'')"
      using field_defined_obj [of "field (field (field msg ''msg_data'') ''new_state'') ''attributes''" "''state''"] h
      by simp
    have "states (snd (handleMessage msg a)) =
           (if JStr st = JStr ''ON'' then (states a)(''activities.'' @ key @ ''.is_active'' \<mapsto> (JBool True, True))
            else if JStr st = JStr ''OFF'' then (states a)(''activities.'' @ key @ ''.is_active'' \<mapsto> (JBool False, True))
            else states a)"
      using activity_change_result [of msg eid "JStr st" "''activities.'' @ key @ ''.is_active''" a] h n
      by (simp add: k)
    then show "states (snd (handleMessage msg a)) =
                (states a)(''activities.'' @ key @ ''.is_active'' \<mapsto> (JBool (st = ''ON''), True))"
      using h by auto
  }
  {
    assume "length segs = 3"
    then show "key = last segs"
      unfolding assms(2) by (cases segs) (auto simp add: last_conv_nth)
  }
qed

theorem local_key_is_third_segment_witness:
  "split_dot ''uc.main.kitchen'' = [''uc'', ''main'', ''kitchen'']
   \<and> field (example_entity ''uc.main.kitchen'' (JStr ''ON'')) ''entity_id'' = JStr ''uc.main.kitchen''
   \<and> \<not> nullish (field (example_entity ''uc.main.kitchen'' (JStr ''ON'')) ''name'')
   \<and> fst (createOrUpdateActivity (example_entity ''uc.main.kitchen'' (JStr ''ON'')) init_adapter) = None
   \<and> dom (objects (snd (createOrUpdateActivity (example_entity ''uc.main.kitchen'' (JStr ''ON'')) init_adapter))) =
        {''activities.kitchen'', ''activities.kitchen.is_active'', ''activities.kitchen.start''}
   \<and> field (example_change ''uc.main.kitchen'' (JStr ''ON'')) ''kind'' = JStr ''event''
   \<and> is_activity_change (example_change ''uc.main.kitchen'' (JStr ''ON''))
   \<and> states (snd (handleMessage (example_change ''uc.main.kitchen'' (JStr ''ON'')) init_adapter)) =
        (states init_adapter)(''activities.kitchen.is_active'' \<mapsto> (JBool True, True))
   \<and> length [''uc'', ''main'', ''kitchen''] = 3
   \<and> ''kitchen'' = last [''uc'', ''main'', ''kitchen'']
   \<and> split_dot ''uc.kitchen'' = [''uc'', ''kitchen'']
   \<and> field (example_entity ''uc.kitchen'' (JObj [(''toString'', JNum 1)])) ''entity_id'' = JStr ''uc.kitchen''
   \<and> \<not> nullish (field (example_entity ''uc.kitchen'' (JObj [(''toString'', JNum 1)])) ''name'')
   \<and> fst (createOrUpdateActivity (example_entity ''uc.kitchen'' (JObj [(''toString'', JNum 1)])) init_adapter) \<noteq> None
   \<and> dom (objects (snd (createOrUpdateActivity (example_entity ''uc.kitchen'' (JObj [(''toString'', JNum 1)]))
             init_adapter))) =
        {''activities.undefined'', ''activities.undefined.is_active''}
   \<and> states (snd (createOrUpdateActivity (example_entity ''uc.kitchen'' (JObj [(''toString'', JNum 1)])) init_adapter)) =
        states init_adapter
   \<and> nullish (field JNull ''name'')
   \<and> snd (createOrUpdateActivity JNull init_adapter) = init_adapter"
proof -
  let ?E = "example_entity ''uc.main.kitchen'' (JStr ''ON'')"
  let ?M = "example_change ''uc.main.kitchen'' (JStr ''ON'')"
  let ?F = "example_entity ''uc.kitchen'' (JObj [(''toString'', JNum 1)])"
  have s: "split_dot ''uc.main.kitchen'' = [''uc'', ''main'', ''kitchen'']"
    by simp
  have key: "''kitchen'' = (if 2 < length [''uc'', ''main'', ''kitchen''] then [''uc'', ''main'', ''kitchen''] ! 2
                           else ''undefined'')"
    by simp
  have e: "field ?E ''entity_id'' = JStr ''uc.main.kitchen''" "\<not> nullish (field ?E ''name'')"
      "\<not> nullish (field ?E ''attributes'')"
      "\<not> conversion_throws (field (field ?E ''attributes'') ''state'')"
    by (simp_all add: example_entity_def)
  have ok: "fst (createOrUpdateActivity ?E init_adapter) = None"
    using create_result(2) [OF e(1,2) refl refl refl refl, of init_adapter] e(3,4) by simp
  have m: "field ?M ''kind'' = JStr ''event''" "is_activity_change ?M"
      "field (field ?M ''msg_data'') ''entity_id'' = JStr ''uc.main.kitchen''"
      "field (field (field (field ?M ''msg_data'') ''new_state'') ''attributes'') ''state'' = JStr ''ON''"
    by (simp_all add: example_change_def is_activity_change_def)
  have d: "dom (objects init_adapter) = {}"
    by (simp add: init_adapter_def)
  note t = local_key_is_third_segment [OF s key refl, of ?E init_adapter ?M "''ON''"]
  note c = t [THEN conjunct2, THEN conjunct1, THEN mp, OF conjI [OF e(1) conjI [OF e(2) ok]], THEN conjunct1]
  note h = t [THEN conjunct2, THEN conjunct2, THEN conjunct2, THEN conjunct1, THEN mp,
              OF conjI [OF m(1) conjI [OF m(2) conjI [OF m(3) conjI [OF m(4) disjI1 [OF refl]]]]]]
  have 1: "dom (objects (snd (createOrUpdateActivity ?E init_adapter))) =
      {''activities.kitchen'', ''activities.kitchen.is_active'', ''activities.kitchen.start''}"
    unfolding c d by simp
  have 2: "states (snd (handleMessage ?M init_adapter)) =
      (states init_adapter)(''activities.kitchen.is_active'' \<mapsto> (JBool True, True))"
    unfolding h by simp
  have 3: "length [''uc'', ''main'', ''kitchen''] = 3"
    by simp
  note l = t [THEN conjunct2, THEN conjunct2, THEN conjunct2, THEN conjunct2, THEN mp, OF 3]
  have s2: "split_dot ''uc.kitchen'' = [''uc'', ''kitchen'']"
    by simp
  have key2: "''undefined'' = (if 2 < length [''uc'', ''kitchen''] then [''uc'', ''kitchen''] ! 2 else ''undefined'')"
    by simp
  have f: "field ?F ''entity_id'' = JStr ''uc.kitchen''" "\<not> nullish (field ?F ''name'')"
      "conversion_throws (field (field ?F ''attributes'') ''state'')"
    by (simp_all add: example_entity_def)
  have no: "fst (createOrUpdateActivity ?F init_adapter) \<noteq> None"
    using create_result(2) [OF f(1,2) refl refl refl refl, of init_adapter] f(3) by simp
  note u = local_key_is_third_segment [OF s2 key2 refl, of ?F init_adapter]
  note v = u [THEN conjunct2, THEN conjunct2, THEN conjunct1, THEN mp, OF conjI [OF f(1) conjI [OF f(2) no]]]
  have 4: "dom (objects (snd (createOrUpdateActivity ?F init_adapter))) =
      {''activities.undefined'', ''activities.undefined.is_active''}"
    unfolding v [THEN conjunct1] d by simp
  note 5 = v [THEN conjunct2, THEN conjunct1]
  have n: "nullish (field JNull ''name'')"
    by simp
  note 6 = local_key_is_third_segment [OF s key refl, of JNull init_adapter, THEN conjunct1, THEN mp, OF disjI2 [OF n]]
  show ?thesis
    by (intro conjI) (fact s e(1,2) ok 1 m(1,2) 2 3 l s2 f(1,2) no 4 5 n 6)+
qed

text \<open>
  C1, as the specification states it, takes the last segment whatever their number. For
  the \<^verbatim>\<open>entity_id\<close> \<^verbatim>\<open>uc.main.kitchen.light\<close> the last segment is \<^verbatim>\<open>light\<close>, and both handlers
  write under \<^verbatim>\<open>activities.kitchen\<close>.
\<close>

theorem key_of_longer_id_is_not_last_segment:
  "last (split_dot ''uc.main.kitchen.light'') = ''light''
   \<and> dom (objects (snd (createOrUpdateActivity (example_entity ''uc.main.kitchen.light'' (JStr ''ON'')) init_adapter))) =
        {''activities.kitchen'', ''activities.kitchen.is_active'', ''activities.kitchen.start''}
   \<and> dom (states (snd (handleMessage (example_change ''uc.main.kitchen.light'' (JStr ''ON'')) init_adapter))) =
        {''activities.kitchen.is_active''}"
proof -
  let ?E = "example_entity ''uc.main.kitchen.light'' (JStr ''ON'')"
  have s: "split_dot ''uc.main.kitchen.light'' = [''uc'', ''main'', ''kitchen'', ''light'']"
    by simp
  have d: "dom (objects init_adapter) = {}" "dom (states init_adapter) = {}"
    by (simp_all add: init_adapter_def)
  have e: "field ?E ''entity_id'' = JStr ''uc.main.kitchen.light''" "\<not> nullish (field ?E ''name'')"
    by (simp_all add: example_entity_def)
  have 1: "dom (objects (snd (createOrUpdateActivity ?E init_adapter))) =
        {''activities.kitchen'', ''activities.kitchen.is_active'', ''activities.kitchen.start''}"
    unfolding create_result(1) [OF e refl refl refl refl, of init_adapter]
    by (simp add: example_entity_def template_def js_index_def d insert_commute)
  have 2: "dom (states (snd (handleMessage (example_change ''uc.main.kitchen.light'' (JStr ''ON'')) init_adapter))) =
        {''activities.kitchen.is_active''}"
    using activity_change_result
      [of "example_change ''uc.main.kitchen.light'' (JStr ''ON'')" "''uc.main.kitchen.light''" "JStr ''ON''"
          "''activities.kitchen.is_active''" init_adapter]
    by (simp add: example_change_def is_activity_change_def template_def js_index_def d)
  show ?thesis
    using 1 2 by (simp only: s) simp
qed

subsection \<open>The nodes of an entity\<close>

text \<open>
  C6, as the code has it. Take an entity with a name and attributes to read, whose
  \<^verbatim>\<open>entity_id\<close> has the third segment \<open>K\<close> and whose state has a conversion to a
  primitive (every value but an object with a \<^verbatim>\<open>toString\<close> property of its own and an array
  that holds one). Whatever the type of the entity, \<^verbatim>\<open>createOrUpdateActivity\<close> throws
  nothing and leaves, beside the objects there were, exactly the three nodes
  \<^verbatim>\<open>activities.K\<close> (a channel with the entity's name: \<^verbatim>\<open>de_DE\<close>, else \<^verbatim>\<open>en_US\<close>, else \<open>K\<close>),
  \<^verbatim>\<open>activities.K.is_active\<close> (a boolean state, read-only) and \<^verbatim>\<open>activities.K.start\<close> (a boolean
  state, write-only). It writes the one state \<^verbatim>\<open>activities.K.is_active\<close>, acknowledged, with
  the value of \<^verbatim>\<open>attributes.state != "OFF"\<close>, which for a state that is not an array is plain
  inequality, and subscribes to \<^verbatim>\<open>activities.K.start\<close>. Called again with the same entity it
  changes nothing at all.
\<close>

theorem reconcile_creates_nodes:
  assumes "field act ''entity_id'' = JStr eid" and "split_dot eid = segs" and "2 < length segs"
    and "\<not> nullish (field act ''name'')" and "\<not> nullish (field act ''attributes'')"
    and "P = ''activities.'' @ segs ! 2"
    and "name = js_or (js_or (field (field act ''name'') ''de_DE'') (field (field act ''name'') ''en_US''))
                  (JStr (segs ! 2))"
    and "st = field (field act ''attributes'') ''state''"
    and "\<not> conversion_throws st"
    and "a' = snd (createOrUpdateActivity act a)"
  shows "fst (createOrUpdateActivity act a) = None
       \<and> dom (objects a') = dom (objects a) \<union> {P, P @ ''.is_active'', P @ ''.start''}
       \<and> map_option (\<lambda>obj. (otype obj, common obj ''name'')) (objects a' P) = Some (''channel'', Some name)
       \<and> map_option (\<lambda>obj. (otype obj, common obj ''type'', common obj ''read'', common obj ''write''))
            (objects a' (P @ ''.is_active'')) =
           Some (''state'', Some (JStr ''boolean''), Some (JBool True), Some (JBool False))
       \<and> map_option (\<lambda>obj. (otype obj, common obj ''type'', common obj ''read'', common obj ''write''))
            (objects a' (P @ ''.start'')) =
           Some (''state'', Some (JStr ''boolean''), Some (JBool False), Some (JBool True))
       \<and> states a' = (states a)(P @ ''.is_active'' \<mapsto> (JBool (\<not> converts_to_OFF st), True))
       \<and> (\<not> is_array st \<longrightarrow> (\<not> converts_to_OFF st) = (st \<noteq> JStr ''OFF''))
       \<and> subscriptions a' = insert (P @ ''.start'') (subscriptions a)
       \<and> createOrUpdateActivity act a' = (None, a')"
proof -
  have k: "template (js_index (split_dot eid) 2) = segs ! 2" "seg_val (js_index (split_dot eid) 2) = JStr (segs ! 2)"
    using assms(2,3) by (simp_all add: template_third seg_val_third)
  have ok: "fst (createOrUpdateActivity act b) = None" for b
    using create_result(2) [OF assms(1,4) refl refl refl refl, of b] assms(5,8,9) by simp
  have c: "snd (createOrUpdateActivity act b) =
      extendObject (P @ ''.start'') start_obj
        (subscribeStates (P @ ''.start'')
          (setState (P @ ''.is_active'') (JBool (\<not> converts_to_OFF st)) True
            (extendObject (P @ ''.is_active'') is_active_obj
              (extendObject P (channel_obj name) b))))" for b
    using create_result(1) [OF assms(1,4) refl refl refl refl, of b] assms(5,9)
    by (simp add: k assms(6,7,8))
  have a': "a' = extendObject (P @ ''.start'') start_obj
        (subscribeStates (P @ ''.start'')
          (setState (P @ ''.is_active'') (JBool (\<not> converts_to_OFF st)) True
            (extendObject (P @ ''.is_active'') is_active_obj
              (extendObject P (channel_obj name) a))))"
    by (simp add: assms(10) c)
  have 1: "fst (createOrUpdateActivity act a) = None"
    by (rule ok)
  have 2: "dom (objects a') = dom (objects a) \<union> {P, P @ ''.is_active'', P @ ''.start''}"
    unfolding a' by auto
  have 3: "map_option (\<lambda>obj. (otype obj, common obj ''name'')) (objects a' P) = Some (''channel'', Some name)"
    unfolding a'
    by (simp add: objects_extend_other objects_extend_same channel_obj_def merge_obj_def split: option.splits)
  have 4: "map_option (\<lambda>obj. (otype obj, common obj ''type'', common obj ''read'', common obj ''write''))
            (objects a' (P @ ''.is_active'')) =
           Some (''state'', Some (JStr ''boolean''), Some (JBool True), Some (JBool False))"
    unfolding a'
    by (simp add: objects_extend_other objects_extend_same is_active_obj_def merge_obj_def split: option.splits)
  have 5: "map_option (\<lambda>obj. (otype obj, common obj ''type'', common obj ''read'', common obj ''write''))
            (objects a' (P @ ''.start'')) =
           Some (''state'', Some (JStr ''boolean''), Some (JBool False), Some (JBool True))"
    unfolding a'
    by (simp add: objects_extend_other objects_extend_same start_obj_def merge_obj_def split: option.splits)
  have 6: "states a' = (states a)(P @ ''.is_active'' \<mapsto> (JBool (\<not> converts_to_OFF st), True))"
    unfolding a' by simp
  have 7: "\<not> is_array st \<longrightarrow> (\<not> converts_to_OFF st) = (st \<noteq> JStr ''OFF'')"
    by (simp add: converts_to_OFF_plain)
  have 8: "subscriptions a' = insert (P @ ''.start'') (subscriptions a)"
    unfolding a' by simp
  have "snd (createOrUpdateActivity act a') = a'"
    unfolding c unfolding a' by (simp add: reconcile_twice)
  then have 9: "createOrUpdateActivity act a' = (None, a')"
    using ok [of a'] by (metis prod.collapse)
  show ?thesis
    using 1 2 3 4 5 6 7 8 9 by simp
qed

theorem reconcile_creates_nodes_witness:
  "field (example_entity ''uc.main.kitchen'' (JStr ''OFF'')) ''entity_id'' = JStr ''uc.main.kitchen''
   \<and> split_dot ''uc.main.kitchen'' = [''uc'', ''main'', ''kitchen'']
   \<and> \<not> nullish (field (example_entity ''uc.main.kitchen'' (JStr ''OFF'')) ''name'')
   \<and> \<not> nullish (field (example_entity ''uc.main.kitchen'' (JStr ''OFF'')) ''attributes'')
   \<and> \<not> conversion_throws (JStr ''OFF'')
   \<and> fst (createOrUpdateActivity (example_entity ''uc.main.kitchen'' (JStr ''OFF'')) init_adapter) = None
   \<and> map_option (\<lambda>obj. (otype obj, common obj ''name''))
        (objects (snd (createOrUpdateActivity (example_entity ''uc.main.kitchen'' (JStr ''OFF'')) init_adapter))
           ''activities.kitchen'') = Some (''channel'', Some (JStr ''Kitchen''))
   \<and> states (snd (createOrUpdateActivity (example_entity ''uc.main.kitchen'' (JStr ''OFF'')) init_adapter)) =
        (states init_adapter)(''activities.kitchen.is_active'' \<mapsto> (JBool False, True))
   \<and> \<not> is_array (JStr ''OFF'')
   \<and> (\<not> converts_to_OFF (JStr ''OFF'')) = (JStr ''OFF'' \<noteq> JStr ''OFF'')
   \<and> createOrUpdateActivity (example_entity ''uc.main.kitchen'' (JStr ''OFF''))
        (snd (createOrUpdateActivity (example_entity ''uc.main.kitchen'' (JStr ''OFF'')) init_adapter)) =
      (None, snd (createOrUpdateActivity (example_entity ''uc.main.kitchen'' (JStr ''OFF'')) init_adapter))"
proof -
  let ?E = "example_entity ''uc.main.kitchen'' (JStr ''OFF'')"
  have h: "field ?E ''entity_id'' = JStr ''uc.main.kitchen''"
      "split_dot ''uc.main.kitchen'' = [''uc'', ''main'', ''kitchen'']"
      "2 < length [''uc'', ''main'', ''kitchen'']"
      "\<not> nullish (field ?E ''name'')" "\<not> nullish (field ?E ''attributes'')"
    by (simp_all add: example_entity_def)
  have v: "''activities.kitchen'' = ''activities.'' @ [''uc'', ''main'', ''kitchen''] ! 2"
      "JStr ''Kitchen'' = js_or (js_or (field (field ?E ''name'') ''de_DE'') (field (field ?E ''name'') ''en_US''))
                  (JStr ([''uc'', ''main'', ''kitchen''] ! 2))"
      "JStr ''OFF'' = field (field ?E ''attributes'') ''state''"
      "\<not> conversion_throws (JStr ''OFF'')"
    by (simp_all add: example_entity_def js_or_def)
  note r = reconcile_creates_nodes [OF h v refl, of init_adapter]
  note 1 = r [THEN conjunct1]
  note 3 = r [THEN conjunct2, THEN conjunct2, THEN conjunct1]
  note 6 = r [THEN conjunct2, THEN conjunct2, THEN conjunct2, THEN conjunct2, THEN conjunct2, THEN conjunct1]
  note 9 = r [THEN conjunct2, THEN conjunct2, THEN conjunct2, THEN conjunct2, THEN conjunct2, THEN conjunct2,
              THEN conjunct2, THEN conjunct2]
  have s6: "states (snd (createOrUpdateActivity ?E init_adapter)) =
        (states init_adapter)(''activities.kitchen.is_active'' \<mapsto> (JBool False, True))"
    unfolding 6 by simp
  have na: "\<not> is_array (JStr ''OFF'')"
    by simp
  note 7 = r [THEN conjunct2, THEN conjunct2, THEN conjunct2, THEN conjunct2, THEN conjunct2, THEN conjunct2,
              THEN conjunct1, THEN mp, OF na]
  show ?thesis
    by (intro conjI) (fact h(1,2,4,5) v(4) 1 3 s6 na 7 9)+
qed

text \<open>
  C6, as the specification states it, puts the nodes under the type of the entity and the
  segment its \<^verbatim>\<open>entity_id\<close> ends in, for every entity, with a value that tells whether the
  state is not equal to \<^verbatim>\<open>"OFF"\<close>. The entity \<^verbatim>\<open>uc.main.kitchen.light\<close> of the type \<^verbatim>\<open>activity\<close>
  ends in \<^verbatim>\<open>light\<close>; the objects afterwards are the three under \<^verbatim>\<open>activities.kitchen\<close> and no
  other, so none under \<^verbatim>\<open>activity\<close> and none for \<^verbatim>\<open>light\<close>, and the state written is
  \<^verbatim>\<open>activities.kitchen.is_active\<close>. The entity \<^verbatim>\<open>uc.main.kitchen\<close> of the same type with the
  state \<^verbatim>\<open>["OFF"]\<close>, which is not the string \<^verbatim>\<open>"OFF"\<close>, has no object \<^verbatim>\<open>activity.kitchen\<close>
  either, and its \<^verbatim>\<open>is_active\<close> is \<^verbatim>\<open>false\<close>. With the state \<^verbatim>\<open>{"toString": 1}\<close> the call
  throws: no state is written and there is no node \<^verbatim>\<open>start\<close>.
\<close>

theorem reconcile_path_and_value_differ:
  "last (split_dot ''uc.main.kitchen.light'') = ''light''
   \<and> field (example_entity ''uc.main.kitchen.light'' (JStr ''ON'')) ''entity_type'' = JStr ''activity''
   \<and> dom (objects (snd (createOrUpdateActivity (example_entity ''uc.main.kitchen.light'' (JStr ''ON'')) init_adapter))) =
        {''activities.kitchen'', ''activities.kitchen.is_active'', ''activities.kitchen.start''}
   \<and> objects (snd (createOrUpdateActivity (example_entity ''uc.main.kitchen.light'' (JStr ''ON'')) init_adapter))
        ''activity.light'' = None
   \<and> objects (snd (createOrUpdateActivity (example_entity ''uc.main.kitchen.light'' (JStr ''ON'')) init_adapter))
        ''activities.light'' = None
   \<and> states (snd (createOrUpdateActivity (example_entity ''uc.main.kitchen.light'' (JStr ''ON'')) init_adapter))
        ''activities.light.is_active'' = None
   \<and> states (snd (createOrUpdateActivity (example_entity ''uc.main.kitchen.light'' (JStr ''ON'')) init_adapter))
        ''activities.kitchen.is_active'' = Some (JBool True, True)
   \<and> last (split_dot ''uc.main.kitchen'') = ''kitchen''
   \<and> field (example_entity ''uc.main.kitchen'' (JArr [JStr ''OFF''])) ''entity_type'' = JStr ''activity''
   \<and> JArr [JStr ''OFF''] \<noteq> JStr ''OFF''
   \<and> fst (createOrUpdateActivity (example_entity ''uc.main.kitchen'' (JArr [JStr ''OFF''])) init_adapter) = None
   \<and> objects (snd (createOrUpdateActivity (example_entity ''uc.main.kitchen'' (JArr [JStr ''OFF''])) init_adapter))
        ''activity.kitchen'' = None
   \<and> states (snd (createOrUpdateActivity (example_entity ''uc.main.kitchen'' (JArr [JStr ''OFF''])) init_adapter))
        ''activities.kitchen.is_active'' = Some (JBool False, True)
   \<and> fst (createOrUpdateActivity (example_entity ''uc.main.kitchen'' (JObj [(''toString'', JNum 1)])) init_adapter)
        \<noteq> None
   \<and> objects (snd (createOrUpdateActivity (example_entity ''uc.main.kitchen'' (JObj [(''toString'', JNum 1)]))
        init_adapter)) ''activities.kitchen.start'' = None
   \<and> states (snd (createOrUpdateActivity (example_entity ''uc.main.kitchen'' (JObj [(''toString'', JNum 1)]))
        init_adapter)) ''activities.kitchen.is_active'' = None"
proof -
  let ?E = "example_entity ''uc.main.kitchen.light'' (JStr ''ON'')"
  let ?F = "example_entity ''uc.main.kitchen'' (JArr [JStr ''OFF''])"
  let ?G = "example_entity ''uc.main.kitchen'' (JObj [(''toString'', JNum 1)])"
  have s: "last (split_dot ''uc.main.kitchen.light'') = ''light''" "last (split_dot ''uc.main.kitchen'') = ''kitchen''"
    by simp_all
  have e: "field ?E ''entity_id'' = JStr ''uc.main.kitchen.light''" "\<not> nullish (field ?E ''name'')"
    by (simp_all add: example_entity_def)
  have f: "field ?F ''entity_id'' = JStr ''uc.main.kitchen''" "\<not> nullish (field ?F ''name'')"
    by (simp_all add: example_entity_def)
  have g: "field ?G ''entity_id'' = JStr ''uc.main.kitchen''" "\<not> nullish (field ?G ''name'')"
    by (simp_all add: example_entity_def)
  have t: "field ?E ''entity_type'' = JStr ''activity''" "field ?F ''entity_type'' = JStr ''activity''"
      "JArr [JStr ''OFF''] \<noteq> JStr ''OFF''"
    by (simp_all add: example_entity_def)
  have c: "snd (createOrUpdateActivity ?E init_adapter) =
      extendObject ''activities.kitchen.start'' start_obj
        (subscribeStates ''activities.kitchen.start''
          (setState ''activities.kitchen.is_active'' (JBool True) True
            (extendObject ''activities.kitchen.is_active'' is_active_obj
              (extendObject ''activities.kitchen'' (channel_obj (JStr ''Kitchen'')) init_adapter))))"
    unfolding create_result(1) [OF e refl refl refl refl, of init_adapter]
    by (simp add: example_entity_def template_def seg_val_def js_index_def js_or_def)
  have c2: "snd (createOrUpdateActivity ?F init_adapter) =
      extendObject ''activities.kitchen.start'' start_obj
        (subscribeStates ''activities.kitchen.start''
          (setState ''activities.kitchen.is_active'' (JBool False) True
            (extendObject ''activities.kitchen.is_active'' is_active_obj
              (extendObject ''activities.kitchen'' (channel_obj (JStr ''Kitchen'')) init_adapter))))"
    unfolding create_result(1) [OF f refl refl refl refl, of init_adapter]
    by (simp add: example_entity_def template_def seg_val_def js_index_def js_or_def)
  have c3: "snd (createOrUpdateActivity ?G init_adapter) =
      extendObject ''activities.kitchen.is_active'' is_active_obj
        (extendObject ''activities.kitchen'' (channel_obj (JStr ''Kitchen'')) init_adapter)"
    unfolding create_result(1) [OF g refl refl refl refl, of init_adapter]
    by (simp add: example_entity_def template_def seg_val_def js_index_def js_or_def)
  have ok: "fst (createOrUpdateActivity ?F init_adapter) = None"
    unfolding create_result(2) [OF f refl refl refl refl, of init_adapter]
    by (simp add: example_entity_def)
  have no: "fst (createOrUpdateActivity ?G init_adapter) \<noteq> None"
    unfolding create_result(2) [OF g refl refl refl refl, of init_adapter]
    by (simp add: example_entity_def)
  have i: "objects init_adapter = Map.empty" "states init_adapter = Map.empty"
    by (simp_all add: init_adapter_def)
  have d: "dom (objects init_adapter) = {}"
    by (simp add: i)
  have 1: "dom (objects (snd (createOrUpdateActivity ?E init_adapter))) =
        {''activities.kitchen'', ''activities.kitchen.is_active'', ''activities.kitchen.start''}"
      "objects (snd (createOrUpdateActivity ?E init_adapter)) ''activity.light'' = None"
      "objects (snd (createOrUpdateActivity ?E init_adapter)) ''activities.light'' = None"
      "states (snd (createOrUpdateActivity ?E init_adapter)) ''activities.light.is_active'' = None"
      "states (snd (createOrUpdateActivity ?E init_adapter)) ''activities.kitchen.is_active'' = Some (JBool True, True)"
    unfolding c by (simp_all add: objects_extend_other i d insert_commute)
  have 2: "objects (snd (createOrUpdateActivity ?F init_adapter)) ''activity.kitchen'' = None"
      "states (snd (createOrUpdateActivity ?F init_adapter)) ''activities.kitchen.is_active'' = Some (JBool False, True)"
    unfolding c2 by (simp_all add: objects_extend_other i)
  have 3: "objects (snd (createOrUpdateActivity ?G init_adapter)) ''activities.kitchen.start'' = None"
      "states (snd (createOrUpdateActivity ?G init_adapter)) ''activities.kitchen.is_active'' = None"
    unfolding c3 by (simp_all add: objects_extend_other i)
  show ?thesis
    by (intro conjI) (fact s t 1 2 3 ok no)+
qed

subsection \<open>Events that change an activity\<close>

text \<open>
  C7. For an event that changes an activity, with a string as \<^verbatim>\<open>entity_id\<close> and attributes
  in its new state, \<^verbatim>\<open>handleMessage\<close> throws nothing, sends nothing and touches no object.
  When the new state is \<^verbatim>\<open>"ON"\<close> it writes \<^verbatim>\<open>is_active = true\<close>, when it is \<^verbatim>\<open>"OFF"\<close> it writes
  \<^verbatim>\<open>is_active = false\<close>, both acknowledged; for every other value the states stay exactly
  as they were.
\<close>

theorem entity_change_filters_state:
  assumes "field msg ''kind'' = JStr ''event''" and "is_activity_change msg"
    and "field (field msg ''msg_data'') ''entity_id'' = JStr eid"
    and "\<not> nullish (field (field (field msg ''msg_data'') ''new_state'') ''attributes'')"
    and "field (field (field (field msg ''msg_data'') ''new_state'') ''attributes'') ''state'' = nstate"
    and "path = ''activities.'' @ template (js_index (split_dot eid) 2) @ ''.is_active''"
  shows "fst (handleMessage msg a) = None
       \<and> states (snd (handleMessage msg a)) =
           (if nstate = JStr ''ON'' then (states a)(path \<mapsto> (JBool True, True))
            else if nstate = JStr ''OFF'' then (states a)(path \<mapsto> (JBool False, True))
            else states a)
       \<and> objects (snd (handleMessage msg a)) = objects a
       \<and> outbox (snd (handleMessage msg a)) = outbox a"
  using assms by (rule activity_change_result)

theorem entity_change_filters_state_witness:
  "field (example_change ''uc.main.kitchen'' (JStr ''RUNNING'')) ''kind'' = JStr ''event''
   \<and> is_activity_change (example_change ''uc.main.kitchen'' (JStr ''RUNNING''))
   \<and> fst (handleMessage (example_change ''uc.main.kitchen'' (JStr ''RUNNING'')) init_adapter) = None
   \<and> states (snd (handleMessage (example_change ''uc.main.kitchen'' (JStr ''RUNNING'')) init_adapter))
      = states init_adapter"
  using entity_change_filters_state
    [of "example_change ''uc.main.kitchen'' (JStr ''RUNNING'')"
      "''uc.main.kitchen''" "JStr ''RUNNING''" "''activities.kitchen.is_active''" init_adapter]
  by (simp add: example_change_def is_activity_change_def template_def js_index_def)

section \<open>Properties of the REST adapter\<close>

lemma match_action_path:
  assumes "ty \<noteq> []" and "CHR ''.'' \<notin> set ty" and "orig \<noteq> []" and "CHR ''.'' \<notin> set orig"
    and "action \<noteq> []" and "CHR ''.'' \<notin> set action"
  shows "match_action (ty @ ''.'' @ orig @ ''.actions.'' @ action) = Some (ty, orig, action)"
proof -
  have "ty @ ''.'' @ orig @ ''.actions.'' @ action
      = ty @ CHR ''.'' # (orig @ CHR ''.'' # (''actions'' @ CHR ''.'' # action))"
    by simp
  then have "split_dot (ty @ ''.'' @ orig @ ''.actions.'' @ action)
      = split_dot ty @ split_dot orig @ split_dot ''actions'' @ split_dot action"
    by (simp only: split_dot_append_dot)
  also have "\<dots> = [ty, orig, ''actions'', action]"
    using assms by (simp add: split_dot_no_dot)
  finally show ?thesis
    using assms by (simp add: match_action_def)
qed

lemma action_failed_result:
  "states (action_failed err sid b) = (states b)(sid @ ''_error'' \<mapsto> (JStr err, True))"
  "objects (action_failed err sid b) (sid @ ''_error'') =
     Some (case objects b (sid @ ''_error'') of None \<Rightarrow> error_obj | Some obj \<Rightarrow> obj)"
  "posts (action_failed err sid b) = posts b"
  by (simp_all add: action_failed_def setState_def setObjectNotExists_def log_msg_def Let_def
      split: option.splits)

text \<open>
  C9. An unacknowledged write to \<^verbatim>\<open><type>.<id>.actions.<action>\<close> (three segments of the
  path, none empty) is handled as follows. The dispatch fails when the entity's channel
  cannot be read, when \<^verbatim>\<open>encodeURIComponent\<close> throws on the entity's id or on the action's
  name, or when the request itself fails. In each of these cases the only state written is
  \<^verbatim>\<open><that state>_error\<close>, set to the message of the failure; the trigger state is not
  written, so it stays unacknowledged; and the object of the error state exists afterwards,
  created if it was absent. In the first three nothing has been posted. When nothing fails,
  one request has been posted, to the address made of the two encoded pieces; the trigger
  state is written with its own value and acknowledged, \<^verbatim>\<open><type>.<id>.lastUpdate\<close> is set to
  the present time, and no object changes.
\<close>

theorem action_write_acknowledged_only_on_success:
  assumes "sid = ty @ ''.'' @ orig @ ''.actions.'' @ action"
    and "ty \<noteq> []" and "CHR ''.'' \<notin> set ty" and "orig \<noteq> []" and "CHR ''.'' \<notin> set orig"
    and "action \<noteq> []" and "CHR ''.'' \<notin> set action"
    and "\<not> ack s"
    and "a' = rest_onStateChange parse encode chan post now sid (Some s) a"
  shows "(chan = Inl err
          \<or> (chan = Inr c \<and> encode (orig_id c orig) = Inl err)
          \<or> (chan = Inr c \<and> encode (orig_id c orig) = Inr encId \<and> encode (JStr (action_name action)) = Inl err)
          \<or> (chan = Inr c \<and> encode (orig_id c orig) = Inr encId \<and> encode (JStr (action_name action)) = Inr encAction
              \<and> post = Inl err)
          \<longrightarrow> states a' = (states a)(sid @ ''_error'' \<mapsto> (JStr err, True))
            \<and> states a' sid = states a sid
            \<and> objects a' (sid @ ''_error'') =
                Some (case objects a (sid @ ''_error'') of None \<Rightarrow> error_obj | Some obj \<Rightarrow> obj))
       \<and> (chan = Inl err
          \<or> (chan = Inr c \<and> encode (orig_id c orig) = Inl err)
          \<or> (chan = Inr c \<and> encode (orig_id c orig) = Inr encId \<and> encode (JStr (action_name action)) = Inl err)
          \<longrightarrow> posts a' = posts a)
       \<and> (chan = Inr c \<and> encode (orig_id c orig) = Inr encId \<and> encode (JStr (action_name action)) = Inr encAction
            \<and> post = Inr status
          \<longrightarrow> states a' = (states a)(sid \<mapsto> (val s, True),
                                        ty @ ''.'' @ orig @ ''.lastUpdate'' \<mapsto> (JStr now, True))
            \<and> objects a' = objects a
            \<and> map fst (posts a') =
                map fst (posts a) @ [restBase a @ ''/api/v1/entities/'' @ encId @ ''/actions/'' @ encAction])"
proof -
  have m: "match_action sid = Some (ty, orig, action)"
    unfolding assms(1) using assms(2-7) by (rule match_action_path)
  have l: "states (log_msg lv t args b) = states b" "objects (log_msg lv t args b) = objects b"
      "posts (log_msg lv t args b) = posts b" "restBase (log_msg lv t args b) = restBase b"
    for lv t args and b :: rest_adapter
    by (simp_all add: log_msg_def)
  have A: "chan = Inl err
          \<or> (chan = Inr c \<and> encode (orig_id c orig) = Inl err)
          \<or> (chan = Inr c \<and> encode (orig_id c orig) = Inr encId \<and> encode (JStr (action_name action)) = Inl err)
          \<or> (chan = Inr c \<and> encode (orig_id c orig) = Inr encId \<and> encode (JStr (action_name action)) = Inr encAction
              \<and> post = Inl err)
          \<longrightarrow> states a' = (states a)(sid @ ''_error'' \<mapsto> (JStr err, True))
            \<and> states a' sid = states a sid
            \<and> objects a' (sid @ ''_error'') =
                Some (case objects a (sid @ ''_error'') of None \<Rightarrow> error_obj | Some obj \<Rightarrow> obj)"
    unfolding assms(9) using assms(8)
    by (auto simp add: rest_onStateChange_def m action_failed_result l Let_def)
  have B: "chan = Inl err
          \<or> (chan = Inr c \<and> encode (orig_id c orig) = Inl err)
          \<or> (chan = Inr c \<and> encode (orig_id c orig) = Inr encId \<and> encode (JStr (action_name action)) = Inl err)
          \<longrightarrow> posts a' = posts a"
    unfolding assms(9) using assms(8)
    by (auto simp add: rest_onStateChange_def m action_failed_result l Let_def)
  have C: "chan = Inr c \<and> encode (orig_id c orig) = Inr encId \<and> encode (JStr (action_name action)) = Inr encAction
            \<and> post = Inr status
          \<longrightarrow> states a' = (states a)(sid \<mapsto> (val s, True),
                                        ty @ ''.'' @ orig @ ''.lastUpdate'' \<mapsto> (JStr now, True))
            \<and> objects a' = objects a
            \<and> map fst (posts a') =
                map fst (posts a) @ [restBase a @ ''/api/v1/entities/'' @ encId @ ''/actions/'' @ encAction]"
    unfolding assms(9) using assms(8)
    by (auto simp add: rest_onStateChange_def m l Let_def setState_def)
  show ?thesis
    using A B C by (intro conjI)
qed

theorem action_write_acknowledged_only_on_success_witness:
  "''activities.a1.actions.start'' = ''activities'' @ ''.'' @ ''a1'' @ ''.actions.'' @ ''start''
   \<and> \<not> ack \<lparr>val = JStr ''go'', ack = False\<rparr>
   \<and> states (rest_onStateChange (\<lambda>d. Inl ''Unexpected token g'') example_encode (Inr None)
        (Inl ''timeout of 8000ms exceeded'')
        ''2024-05-01T10:00:00.000Z'' ''activities.a1.actions.start'' (Some \<lparr>val = JStr ''go'', ack = False\<rparr>)
        example_rest) =
      (states example_rest)(''activities.a1.actions.start_error'' \<mapsto> (JStr ''timeout of 8000ms exceeded'', True))
   \<and> states (rest_onStateChange (\<lambda>d. Inl ''Unexpected token g'') example_encode (Inr (Some example_channel))
        (Inr 200)
        ''2024-05-01T10:00:00.000Z'' ''activities.a1.actions.start'' (Some \<lparr>val = JStr ''go'', ack = False\<rparr>)
        example_rest) =
      (states example_rest)(''activities.a1.actions.start_error'' \<mapsto>
         (JStr ''Cannot convert object to primitive value'', True))
   \<and> posts (rest_onStateChange (\<lambda>d. Inl ''Unexpected token g'') example_encode (Inr (Some example_channel))
        (Inr 200)
        ''2024-05-01T10:00:00.000Z'' ''activities.a1.actions.start'' (Some \<lparr>val = JStr ''go'', ack = False\<rparr>)
        example_rest) = []
   \<and> states (rest_onStateChange (\<lambda>d. Inl ''Unexpected token g'') example_encode (Inr None) (Inr 200)
        ''2024-05-01T10:00:00.000Z'' ''activities.a1.actions.start'' (Some \<lparr>val = JStr ''go'', ack = False\<rparr>)
        example_rest) =
      (states example_rest)(''activities.a1.actions.start'' \<mapsto> (JStr ''go'', True),
                            ''activities.a1.lastUpdate'' \<mapsto> (JStr ''2024-05-01T10:00:00.000Z'', True))
   \<and> map fst (posts (rest_onStateChange (\<lambda>d. Inl ''Unexpected token g'') example_encode (Inr None) (Inr 200)
        ''2024-05-01T10:00:00.000Z'' ''activities.a1.actions.start'' (Some \<lparr>val = JStr ''go'', ack = False\<rparr>)
        example_rest)) =
      [''http://192.168.1.50:80/api/v1/entities/a1/actions/start'']"
proof -
  let ?p = "\<lambda>d :: string. Inl ''Unexpected token g'' :: exn + jsval"
  let ?now = "''2024-05-01T10:00:00.000Z''"
  let ?s = "\<lparr>val = JStr ''go'', ack = False\<rparr>"
  let ?T = "''timeout of 8000ms exceeded''"
  let ?E = "''Cannot convert object to primitive value''"
  have h: "''activities.a1.actions.start'' = ''activities'' @ ''.'' @ ''a1'' @ ''.actions.'' @ ''start''"
      "''activities'' \<noteq> []" "CHR ''.'' \<notin> set ''activities''" "''a1'' \<noteq> []" "CHR ''.'' \<notin> set ''a1''"
      "''start'' \<noteq> []" "CHR ''.'' \<notin> set ''start''" "\<not> ack ?s"
    by simp_all
  have e: "example_encode (orig_id None ''a1'') = Inr ''a1''"
      "example_encode (JStr (action_name ''start'')) = Inr ''start''"
      "example_encode (orig_id (Some example_channel) ''a1'') = Inl ?E"
    by (simp_all add: example_encode_def orig_id_def action_name_def example_channel_def)
  note fail = action_write_acknowledged_only_on_success
    [OF h refl, where chan = "Inr None" and err = ?T and c = None and encId = "''a1''" and encAction = "''start''"
       and encode = example_encode and post = "Inl ?T" and status = 200
       and parse = ?p and now = ?now and a = example_rest]
  note conv = action_write_acknowledged_only_on_success
    [OF h refl, where chan = "Inr (Some example_channel)" and err = ?E and c = "Some example_channel"
       and encId = "''a1''" and encAction = "''start''"
       and encode = example_encode and post = "Inr 200" and status = 200
       and parse = ?p and now = ?now and a = example_rest]
  note succ = action_write_acknowledged_only_on_success
    [OF h refl, where chan = "Inr None" and err = ?T and c = None and encId = "''a1''" and encAction = "''start''"
       and encode = example_encode and post = "Inr 200" and status = 200
       and parse = ?p and now = ?now and a = example_rest]
  note 1 = fail [THEN conjunct1, THEN mp,
      OF disjI2 [OF disjI2 [OF disjI2 [OF conjI [OF refl conjI [OF e(1) conjI [OF e(2) refl]]]]]], THEN conjunct1]
  note 2 = conv [THEN conjunct1, THEN mp, OF disjI2 [OF disjI1 [OF conjI [OF refl e(3)]]], THEN conjunct1]
  note 3 = conv [THEN conjunct2, THEN conjunct1, THEN mp, OF disjI2 [OF disjI1 [OF conjI [OF refl e(3)]]]]
  note 4 = succ [THEN conjunct2, THEN conjunct2, THEN mp, OF conjI [OF refl conjI [OF e(1) conjI [OF e(2) refl]]]]
  have s1: "states (rest_onStateChange ?p example_encode (Inr None) (Inl ?T) ?now
        ''activities.a1.actions.start'' (Some ?s) example_rest) =
      (states example_rest)(''activities.a1.actions.start_error'' \<mapsto> (JStr ?T, True))"
    unfolding 1 by simp
  have s2: "states (rest_onStateChange ?p example_encode (Inr (Some example_channel)) (Inr 200) ?now
        ''activities.a1.actions.start'' (Some ?s) example_rest) =
      (states example_rest)(''activities.a1.actions.start_error'' \<mapsto> (JStr ?E, True))"
    unfolding 2 by simp
  have s3: "posts (rest_onStateChange ?p example_encode (Inr (Some example_channel)) (Inr 200) ?now
        ''activities.a1.actions.start'' (Some ?s) example_rest) = []"
    unfolding 3 by (simp add: example_rest_def)
  have s4: "states (rest_onStateChange ?p example_encode (Inr None) (Inr 200) ?now
        ''activities.a1.actions.start'' (Some ?s) example_rest) =
      (states example_rest)(''activities.a1.actions.start'' \<mapsto> (JStr ''go'', True),
                            ''activities.a1.lastUpdate'' \<mapsto> (JStr ?now, True))"
    unfolding 4 [THEN conjunct1] by simp
  have s5: "map fst (posts (rest_onStateChange ?p example_encode (Inr None) (Inr 200) ?now
        ''activities.a1.actions.start'' (Some ?s) example_rest)) =
      [''http://192.168.1.50:80/api/v1/entities/a1/actions/start'']"
    unfolding 4 [THEN conjunct2, THEN conjunct2] by (simp add: example_rest_def)
  show ?thesis
    by (intro conjI) (fact h(1,8) s1 s2 s3 s4 s5)+
qed

end
